theory Spec2Isabelle
  imports Main "HOL-Library.Char_ord" "HOL-Library.AList"
begin

section \<open>Strings\<close>

text \<open>
  JavaScript strings are modelled as \<open>string\<close>; only ASCII text is in the modelled
  fragment (see \<open>new_URL\<close>), so a \<open>char\<close> is one UTF-16 unit of the source.
\<close>

definition isDigit :: "char \<Rightarrow> bool" where
  "isDigit c = (CHR ''0'' \<le> c \<and> c \<le> CHR ''9'')"

definition isLower :: "char \<Rightarrow> bool" where
  "isLower c = (CHR ''a'' \<le> c \<and> c \<le> CHR ''z'')"

definition isUpper :: "char \<Rightarrow> bool" where
  "isUpper c = (CHR ''A'' \<le> c \<and> c \<le> CHR ''Z'')"

definition isAlnum :: "char \<Rightarrow> bool" where
  "isAlnum c = (isDigit c \<or> isLower c \<or> isUpper c)"

definition isHex :: "char \<Rightarrow> bool" where
  "isHex c = (isDigit c \<or> (CHR ''a'' \<le> c \<and> c \<le> CHR ''f'') \<or> (CHR ''A'' \<le> c \<and> c \<le> CHR ''F''))"

definition toLowerCase_char :: "char \<Rightarrow> char" where
  "toLowerCase_char c =
     (if isUpper c
      then (case map_of (zip ''ABCDEFGHIJKLMNOPQRSTUVWXYZ'' ''abcdefghijklmnopqrstuvwxyz'') c of
              Some l \<Rightarrow> l | None \<Rightarrow> c)
      else c)"

definition toLowerCase :: "string \<Rightarrow> string" where
  "toLowerCase s = map toLowerCase_char s"

definition startsWith :: "string \<Rightarrow> string \<Rightarrow> bool" where
  "startsWith s p = (take (length p) s = p)"

definition endsWith :: "string \<Rightarrow> string \<Rightarrow> bool" where
  "endsWith s p = (length p \<le> length s \<and> drop (length s - length p) s = p)"

text \<open>\<open>s.split(d)\<close> for a one-character separator: never the empty list.\<close>

fun split_on :: "char \<Rightarrow> string \<Rightarrow> string list" where
  "split_on d [] = [[]]"
| "split_on d (c # cs) =
     (if c = d then [] # split_on d cs
      else (case split_on d cs of [] \<Rightarrow> [[c]] | x # xs \<Rightarrow> (c # x) # xs))"

definition hex_value :: "char \<Rightarrow> nat" where
  "hex_value c =
     (case map_of (zip ''0123456789abcdef'' [0, 1, 2, 3, 4, 5, 6, 7, 8, 9, 10, 11, 12, 13, 14, 15])
             (toLowerCase_char c) of
        Some n \<Rightarrow> n | None \<Rightarrow> 0)"

definition digits_value :: "string \<Rightarrow> nat" where
  "digits_value ds = foldl (\<lambda>n c. 10 * n + hex_value c) 0 ds"

section \<open>The platform's URL class\<close>

text \<open>
  The repository parses every URL with Node's \<open>URL\<close> class, which is not part of the
  repository. The record holds the getters the code reads; \<open>new_URL\<close> models the
  constructor on the following fragment of its input language, where the platform leaves
  every component as written apart from lower-casing scheme and host and dropping a
  default port:
  \<^item> scheme \<open>http\<close> or \<open>https\<close> (any case), followed by \<open>://\<close>;
  \<^item> a host of non-empty dot-separated labels over letters, digits and \<open>-\<close>, no label
    starting with \<open>xn--\<close>, the last label not a number (no IPv4 parsing);
  \<^item> an optional \<open>:port\<close> of decimal digits, at most 65535;
  \<^item> path, query and fragment over characters the platform does not percent-encode,
    no dot segments in the path of an absolute URL, and a \<open>?\<close> or \<open>#\<close> only with a
    non-empty component.
  On any other string the model answers \<open>None\<close>, the value that also stands for the
  constructor throwing. Statements about all URLs below are therefore made from the parse
  result, and evaluations stay inside the fragment.
\<close>

record URL =
  protocol :: string
  hostname :: string
  port :: string
  pathname :: string
  search :: string
  hash :: string

definition is_number_label :: "string \<Rightarrow> bool" where
  "is_number_label l =
     ((l \<noteq> [] \<and> list_all isDigit l) \<or>
      (take 2 (toLowerCase l) = ''0x'' \<and> list_all isHex (drop 2 l)))"

definition valid_label :: "string \<Rightarrow> bool" where
  "valid_label l =
     (l \<noteq> [] \<and> list_all (\<lambda>c. isAlnum c \<or> c = CHR ''-'') l \<and>
      take 4 (toLowerCase l) \<noteq> ''xn--'')"

definition valid_labels :: "string list \<Rightarrow> bool" where
  "valid_labels ls = (list_all valid_label ls \<and> \<not> is_number_label (last ls))"

definition valid_host :: "string \<Rightarrow> bool" where
  "valid_host h = valid_labels (split_on CHR ''.'' h)"

definition valid_port :: "string \<Rightarrow> bool" where
  "valid_port ds = (list_all isDigit ds \<and> digits_value ds \<le> 65535)"

definition drop_default_port :: "string \<Rightarrow> string \<Rightarrow> string" where
  "drop_default_port scheme shown =
     (if (scheme = ''http'' \<and> shown = ''80'') \<or> (scheme = ''https'' \<and> shown = ''443'')
      then [] else shown)"

definition canon_port :: "string \<Rightarrow> string \<Rightarrow> string" where
  "canon_port scheme ds =
     drop_default_port scheme
       (if ds = [] then []
        else if dropWhile (\<lambda>c. c = CHR ''0'') ds = [] then ''0''
        else dropWhile (\<lambda>c. c = CHR ''0'') ds)"

definition isPathChar :: "char \<Rightarrow> bool" where
  "isPathChar c = (isAlnum c \<or> c \<in> set ''-._~!$&()*+,;=:@/%'')"

fun undot :: "string \<Rightarrow> string" where
  "undot (a # b # c # cs) =
     (if a = CHR ''%'' \<and> b = CHR ''2'' \<and> (c = CHR ''e'' \<or> c = CHR ''E'')
      then CHR ''.'' # undot cs else a # undot (b # c # cs))"
| "undot cs = cs"

definition is_dot_segment :: "string \<Rightarrow> bool" where
  "is_dot_segment seg = (undot seg = ''.'' \<or> undot seg = ''..'')"

definition valid_path :: "string \<Rightarrow> bool" where
  "valid_path p =
     (list_all isPathChar p \<and>
      list_all (\<lambda>seg. \<not> is_dot_segment seg) (split_on CHR ''/'' p))"

fun percent_decode :: "string \<Rightarrow> string" where
  "percent_decode (a # b # c # cs) =
     (if a = CHR ''%'' \<and> isHex b \<and> isHex c
      then char_of (16 * hex_value b + hex_value c) # percent_decode cs
      else a # percent_decode (b # c # cs))"
| "percent_decode cs = cs"

definition valid_query :: "string \<Rightarrow> bool" where
  "valid_query q =
     (list_all (\<lambda>c. isPathChar c \<or> c = CHR ''?'') q \<and>
      list_all (\<lambda>c. (of_char c :: nat) < 128) (percent_decode q))"

definition valid_fragment :: "string \<Rightarrow> bool" where
  "valid_fragment f = list_all (\<lambda>c. isPathChar c \<or> c = CHR ''?'') f"

text \<open>The parser runs in stages, each handing the pieces it has cut off to the next.\<close>

definition new_URL_components ::
  "string \<Rightarrow> string \<Rightarrow> string \<Rightarrow> string \<Rightarrow> bool \<Rightarrow> string \<Rightarrow> string \<Rightarrow> URL option" where
  "new_URL_components scheme host portpart path has_query query r3 =
     (if \<not> valid_host host \<or> \<not> valid_port portpart \<or> \<not> valid_path path
         \<or> \<not> valid_query query \<or> (has_query \<and> query = [])
         \<or> \<not> valid_fragment (drop 1 r3) \<or> (startsWith r3 ''#'' \<and> drop 1 r3 = [])
      then None
      else Some \<lparr> protocol = scheme @ '':'',
                  hostname = toLowerCase host,
                  port = canon_port scheme portpart,
                  pathname = (if path = [] then ''/'' else path),
                  search = (if query = [] then [] else CHR ''?'' # query),
                  hash = (if drop 1 r3 = [] then [] else CHR ''#'' # drop 1 r3) \<rparr>)"

definition new_URL_query ::
  "string \<Rightarrow> string \<Rightarrow> string \<Rightarrow> string \<Rightarrow> string \<Rightarrow> URL option" where
  "new_URL_query scheme host portpart path r2 =
     (if startsWith r2 ''?''
      then new_URL_components scheme host portpart path True
             (takeWhile (\<lambda>c. c \<noteq> CHR ''#'') (drop 1 r2))
             (dropWhile (\<lambda>c. c \<noteq> CHR ''#'') (drop 1 r2))
      else new_URL_components scheme host portpart path False [] r2)"

definition new_URL_authority :: "string \<Rightarrow> string \<Rightarrow> string \<Rightarrow> URL option" where
  "new_URL_authority scheme authority r1 =
     new_URL_query scheme
       (takeWhile (\<lambda>c. c \<noteq> CHR '':'') authority)
       (drop 1 (dropWhile (\<lambda>c. c \<noteq> CHR '':'') authority))
       (takeWhile (\<lambda>c. c \<notin> set ''?#'') r1)
       (dropWhile (\<lambda>c. c \<notin> set ''?#'') r1)"

definition new_URL_scheme :: "string \<Rightarrow> string \<Rightarrow> URL option" where
  "new_URL_scheme scheme rest =
     (if (scheme \<noteq> ''http'' \<and> scheme \<noteq> ''https'') \<or> \<not> startsWith rest ''://'' then None
      else new_URL_authority scheme
             (takeWhile (\<lambda>c. c \<notin> set ''/?#'') (drop 3 rest))
             (dropWhile (\<lambda>c. c \<notin> set ''/?#'') (drop 3 rest)))"

definition new_URL :: "string \<Rightarrow> URL option" where
  "new_URL s =
     new_URL_scheme (toLowerCase (takeWhile (\<lambda>c. c \<noteq> CHR '':'') s))
                    (dropWhile (\<lambda>c. c \<noteq> CHR '':'') s)"

text \<open>The \<open>href\<close> getter: the serialisation of the parsed URL.\<close>

definition href :: "URL \<Rightarrow> string" where
  "href u =
     protocol u @ ''//'' @ hostname u @ (if port u = [] then [] else CHR '':'' # port u)
       @ pathname u @ search u @ hash u"

text \<open>
  \<open>new URL(url, base)\<close> parses the base first and throws when that fails, whatever
  \<open>url\<close> is. A \<open>url\<close> that starts with a scheme (a letter, then letters, digits,
  \<open>+\<close>, \<open>-\<close> or \<open>.\<close>, then \<open>:\<close>) is parsed on its own; in the modelled fragment the
  scheme is followed by \<open>//\<close>. Any other \<open>url\<close> is a relative reference and takes
  from the base what it does not give itself: the empty reference and \<open>#f\<close> everything
  but the fragment, \<open>?q\<close> everything up to the path, \<open>//host/p\<close> the scheme, \<open>/p\<close>
  scheme, host and port, and a path-relative reference also the path of the base
  without its last segment. Dot segments of a relative path are resolved as the
  platform's path parser does: \<open>..\<close> removes the last segment collected so far (if
  any), \<open>.\<close> is dropped, and either of them in last position leaves an empty last
  segment. The resolved reference is then validated like an absolute URL.
\<close>

definition isSchemeChar :: "char \<Rightarrow> bool" where
  "isSchemeChar c = (isAlnum c \<or> c \<in> set ''+-.'')"

definition has_scheme :: "string \<Rightarrow> bool" where
  "has_scheme s =
     (s \<noteq> [] \<and> (isLower (hd s) \<or> isUpper (hd s)) \<and> startsWith (dropWhile isSchemeChar s) '':'')"

fun resolve_segments :: "string list \<Rightarrow> string list \<Rightarrow> string list" where
  "resolve_segments path [] = path"
| "resolve_segments path (seg # rest) =
     (if undot seg = ''..''
      then resolve_segments (if rest = [] then butlast path @ [[]] else butlast path) rest
      else if undot seg = ''.''
      then resolve_segments (if rest = [] then path @ [[]] else path) rest
      else resolve_segments (path @ [seg]) rest)"

definition serialize_path :: "string list \<Rightarrow> string" where
  "serialize_path segs = concat (map (\<lambda>seg. CHR ''/'' # seg) segs)"

definition origin_of :: "URL \<Rightarrow> string" where
  "origin_of b = protocol b @ ''//'' @ hostname b @ (if port b = [] then [] else CHR '':'' # port b)"

text \<open>
  The absolute URL a relative reference stands for: \<open>pathpart\<close> is the reference up to
  its first \<open>?\<close> or \<open>#\<close>, \<open>r\<close> the rest of it.
\<close>

definition resolve_reference :: "URL \<Rightarrow> string \<Rightarrow> string \<Rightarrow> string" where
  "resolve_reference b pathpart r =
     (if pathpart = [] then
        (if startsWith r ''?'' then origin_of b @ pathname b @ r
         else origin_of b @ pathname b @ search b @ r)
      else if startsWith pathpart ''//'' then protocol b @ pathpart @ r
      else if startsWith pathpart ''/''
      then origin_of b @ serialize_path (resolve_segments [] (split_on CHR ''/'' (drop 1 pathpart))) @ r
      else origin_of b
             @ serialize_path (resolve_segments (butlast (split_on CHR ''/'' (drop 1 (pathname b))))
                                 (split_on CHR ''/'' pathpart))
             @ r)"

fun new_URL_relative :: "URL option \<Rightarrow> string \<Rightarrow> URL option" where
  "new_URL_relative None url = None"
| "new_URL_relative (Some b) url =
     (if has_scheme url then new_URL url
      else new_URL (resolve_reference b (takeWhile (\<lambda>c. c \<notin> set ''?#'') url)
                      (dropWhile (\<lambda>c. c \<notin> set ''?#'') url)))"

definition new_URL_base :: "string \<Rightarrow> string \<Rightarrow> URL option" where
  "new_URL_base url base = new_URL_relative (new_URL base) url"

text \<open>
  The \<open>hostname\<close> setter re-parses its argument and leaves the URL unchanged when the
  new host is not a valid one (for instance the empty string).
\<close>

definition set_hostname :: "string \<Rightarrow> URL \<Rightarrow> URL" where
  "set_hostname h u = (if valid_host h then u\<lparr>hostname := toLowerCase h\<rparr> else u)"

section \<open>normalize.js, the module the crawl imports\<close>

text \<open>
  The repository holds two generations of \<open>src/normalize.js\<close>. This section models the
  one that exports \<open>normalizeUrl\<close>, \<open>extractPrimaryDomain\<close>, \<open>isPrimaryDomain\<close> and
  \<open>normalizeAndClassifyUrl\<close>, the four names \<open>src/crawl.js\<close> imports.
\<close>

text \<open>\<open>pathname.replace(/\/+/g, '/')\<close>\<close>

fun collapse_slashes :: "string \<Rightarrow> string" where
  "collapse_slashes (a # b # cs) =
     (if a = CHR ''/'' \<and> b = CHR ''/'' then collapse_slashes (b # cs)
      else a # collapse_slashes (b # cs))"
| "collapse_slashes cs = cs"

definition strip_www :: "string \<Rightarrow> string" where
  "strip_www h = (if startsWith h ''www.'' then drop 4 h else h)"

definition strip_trailing_slash :: "string \<Rightarrow> string" where
  "strip_trailing_slash p = (if length p > 1 \<and> endsWith p ''/'' then butlast p else p)"

definition ensure_leading_slash :: "string \<Rightarrow> string" where
  "ensure_leading_slash p = (if \<not> startsWith p ''/'' then CHR ''/'' # p else p)"

definition normalize_pathname :: "string \<Rightarrow> string" where
  "normalize_pathname p = ensure_leading_slash (strip_trailing_slash (collapse_slashes p))"

text \<open>
  The body of \<open>normalizeUrl\<close> mutates the parsed URL statement by statement; each
  statement is one function on the record, applied in the source's order.
\<close>

definition lowercase_protocol :: "URL \<Rightarrow> URL" where
  "lowercase_protocol u = u\<lparr>protocol := toLowerCase (protocol u)\<rparr>"

definition strip_www_hostname :: "URL \<Rightarrow> URL" where
  "strip_www_hostname u = set_hostname (strip_www (toLowerCase (hostname u))) u"

definition remove_default_port :: "URL \<Rightarrow> URL" where
  "remove_default_port u =
     (if (protocol u = ''http:'' \<and> port u = ''80'') \<or> (protocol u = ''https:'' \<and> port u = ''443'')
      then u\<lparr>port := []\<rparr> else u)"

definition clear_hash :: "URL \<Rightarrow> URL" where
  "clear_hash u = u\<lparr>hash := []\<rparr>"

definition clear_search :: "URL \<Rightarrow> URL" where
  "clear_search u = u\<lparr>search := []\<rparr>"

definition normalized_string :: "URL \<Rightarrow> string" where
  "normalized_string u =
     protocol u @ ''//'' @ hostname u @ (if port u \<noteq> [] then CHR '':'' # port u else [])
       @ normalize_pathname (pathname u)"

definition normalizeUrl :: "string \<Rightarrow> string option" where
  "normalizeUrl url =
     (case new_URL url of
        None \<Rightarrow> None
      | Some parsedUrl \<Rightarrow>
          Some (normalized_string (clear_search (clear_hash (remove_default_port
                  (strip_www_hostname (lowercase_protocol parsedUrl)))))))"

definition extractPrimaryDomain :: "string \<Rightarrow> string option" where
  "extractPrimaryDomain url =
     (case new_URL url of
        None \<Rightarrow> None
      | Some u \<Rightarrow> Some (strip_www (toLowerCase (hostname u))))"

definition isPrimaryDomain :: "string \<Rightarrow> string \<Rightarrow> bool" where
  "isPrimaryDomain url primaryDomain = (extractPrimaryDomain url = Some primaryDomain)"

text \<open>The result object \<open>{ normalized, isExternal }\<close> is a pair.\<close>

definition normalizeAndClassifyUrl :: "string \<Rightarrow> string \<Rightarrow> string \<Rightarrow> string option \<times> bool" where
  "normalizeAndClassifyUrl url baseUrl primaryDomain =
     (case new_URL_base url baseUrl of
        None \<Rightarrow> (None, True)
      | Some parsedUrl \<Rightarrow>
          (case normalizeUrl (href parsedUrl) of
             None \<Rightarrow> (None, True)
           | Some normalized \<Rightarrow>
               (Some normalized, extractPrimaryDomain normalized \<noteq> Some primaryDomain)))"

section \<open>normalize.js, the generation that keeps query parameters\<close>

text \<open>
  The file stored as \<open>src/normalize.js\<close> exports \<open>normalizeUrl\<close> and
  \<open>normalizeAndFilterUrl\<close>. Its \<open>normalizeUrl\<close> is modelled as
  \<open>normalizeUrl_paginated\<close>. The \<open>searchParams\<close> view of a URL is the platform's
  \<open>application/x-www-form-urlencoded\<close> parser and serialiser.
\<close>

definition PAGINATION_PARAMS :: "string list" where
  "PAGINATION_PARAMS = [''page'', ''p'', ''pagenum'', ''paged'', ''offset'', ''start'']"

definition trackingParams :: "string list" where
  "trackingParams = [''fbclid'', ''gclid'']"

definition urldecode :: "string \<Rightarrow> string" where
  "urldecode s = percent_decode (map (\<lambda>c. if c = CHR ''+'' then CHR '' '' else c) s)"

definition hexDigitsUpper :: string where
  "hexDigitsUpper = ''0123456789ABCDEF''"

definition urlencode_char :: "char \<Rightarrow> string" where
  "urlencode_char c =
     (if isAlnum c \<or> c \<in> set ''*-._'' then [c]
      else if c = CHR '' '' then ''+''
      else [CHR ''%'', hexDigitsUpper ! (of_char c div 16), hexDigitsUpper ! (of_char c mod 16)])"

definition urlencode :: "string \<Rightarrow> string" where
  "urlencode s = concat (map urlencode_char s)"

definition parse_params :: "string \<Rightarrow> (string \<times> string) list" where
  "parse_params q =
     map (\<lambda>piece. (urldecode (takeWhile (\<lambda>c. c \<noteq> CHR ''='') piece),
                    urldecode (drop 1 (dropWhile (\<lambda>c. c \<noteq> CHR ''='') piece))))
         (filter (\<lambda>piece. piece \<noteq> []) (split_on CHR ''&'' q))"

fun serialize_params :: "(string \<times> string) list \<Rightarrow> string" where
  "serialize_params [] = []"
| "serialize_params [(n, v)] = urlencode n @ ''='' @ urlencode v"
| "serialize_params ((n, v) # ps) = urlencode n @ ''='' @ urlencode v @ ''&'' @ serialize_params ps"

definition searchParams :: "URL \<Rightarrow> (string \<times> string) list" where
  "searchParams u = parse_params (drop 1 (search u))"

text \<open>\<open>url.searchParams.delete(name)\<close> removes the pairs and rewrites the query.\<close>

text \<open>
  \<open>url.searchParams\<close> is a list object created from the query on first access;
  \<open>delete(name)\<close> removes the pairs of that name from the list and writes the
  serialised list back as the URL's query.
\<close>

definition query_string :: "(string \<times> string) list \<Rightarrow> string" where
  "query_string ps = (if ps = [] then [] else CHR ''?'' # serialize_params ps)"

definition delete_param :: "string \<Rightarrow> (string \<times> string) list \<Rightarrow> (string \<times> string) list" where
  "delete_param name ps = filter (\<lambda>(n, v). n \<noteq> name) ps"

definition is_tracking_keyLower :: "string \<Rightarrow> bool" where
  "is_tracking_keyLower keyLower =
     (keyLower \<notin> set PAGINATION_PARAMS \<and>
      (startsWith keyLower ''utm_'' \<or> keyLower \<in> set trackingParams))"

definition is_tracking_key :: "string \<Rightarrow> bool" where
  "is_tracking_key key = is_tracking_keyLower (toLowerCase key)"

text \<open>A JavaScript \<open>Set\<close> of strings in insertion order.\<close>

definition set_add :: "string \<Rightarrow> string list \<Rightarrow> string list" where
  "set_add x xs = (if x \<in> set xs then xs else xs @ [x])"

definition paramsToRemove :: "URL \<Rightarrow> string list" where
  "paramsToRemove u =
     fold (\<lambda>(key, v) acc. if is_tracking_key key then set_add key acc else acc)
          (searchParams u) []"

definition remove_tracking_params :: "URL \<Rightarrow> URL" where
  "remove_tracking_params u =
     (if paramsToRemove u = [] then u
      else u\<lparr>search := query_string (fold delete_param (paramsToRemove u) (searchParams u))\<rparr>)"

definition normalized_string_paginated :: "URL \<Rightarrow> string" where
  "normalized_string_paginated u =
     protocol u @ ''//'' @ hostname u @ normalize_pathname (pathname u) @ search u"

definition normalizeUrl_paginated :: "string \<Rightarrow> string option" where
  "normalizeUrl_paginated url =
     (case new_URL url of
        None \<Rightarrow> None
      | Some parsedUrl \<Rightarrow>
          Some (normalized_string_paginated (remove_tracking_params (clear_hash
                  (strip_www_hostname (lowercase_protocol parsedUrl))))))"

section \<open>crawl.js: data\<close>

definition MAX_PAGES :: nat where
  "MAX_PAGES = 1000"

definition MAX_DEPTH :: nat where
  "MAX_DEPTH = 10"

definition NON_HTML_EXTENSIONS :: "string list" where
  "NON_HTML_EXTENSIONS =
     [''pdf'', ''jpg'', ''jpeg'', ''png'', ''gif'', ''svg'', ''webp'', ''ico'',
      ''css'', ''js'', ''json'', ''xml'', ''zip'', ''tar'', ''gz'', ''rar'',
      ''mp4'', ''mp3'', ''avi'', ''mov'', ''wmv'', ''flv'',
      ''doc'', ''docx'', ''xls'', ''xlsx'', ''ppt'', ''pptx'']"

text \<open>
  A frontier entry \<open>{ normalized_url, depth, original_url }\<close>, the page object kept in
  \<open>pagesMap\<close> and the row of the \<open>pages\<close> table share their two URL fields.
\<close>

record UrlRef =
  normalized_url :: string
  original_url :: string

record FrontierEntry = UrlRef +
  depth :: nat

record Page = UrlRef +
  status_code :: "nat option"
  title :: "string option"
  h1 :: "string option"
  meta_description :: "string option"
  internal_links_out :: nat
  external_links_out :: nat
  internal_links_in :: nat
  external_links_in :: nat

record PageRow = Page +
  crawl_job_id :: string
  canonical :: "string option"
  page_depth :: nat

datatype JobStatus = Running | Completed | Failed

text \<open>The row of \<open>crawl_jobs\<close>; timestamps are left out.\<close>

record CrawlJob =
  job_id :: string
  domain :: string
  project_id :: string
  status :: JobStatus
  stop_reason :: "string option"
  error_message :: "string option"
  pages_discovered :: "nat option"
  pages_crawled :: "nat option"
  duplicates_skipped :: "nat option"
  external_links :: "(string \<times> nat \<times> string list) list"

text \<open>
  What the fetcher and the parser return for a URL. \<open>extractPageData\<close> and
  \<open>extractLinks\<close> read an HTML text with a DOM library; the model keeps of the text
  what they extract from it. \<open>html = None\<close> is the fetcher's \<open>html: null\<close> for a
  response that is not HTML.
\<close>

record Html =
  doc_title :: "string option"
  doc_h1 :: "string option"
  doc_meta_description :: "string option"
  doc_canonical :: "string option"
  doc_links :: "string list"

datatype FetchResult = FetchError string | Fetched string nat "Html option"

text \<open>
  The world outside the crawl: the fetcher, and whether the store refuses the insert of
  a page row (the code logs the error and goes on).
\<close>

record World =
  fetchPage :: "string \<Rightarrow> FetchResult"
  insert_error :: "string \<Rightarrow> bool"

text \<open>
  The local variables of \<open>runCrawl\<close> together with the two tables it writes. JavaScript
  \<open>Map\<close>s are association lists in insertion order (\<open>AList.update\<close> is \<open>Map.set\<close>),
  the \<open>Set\<close> \<open>seenUrls\<close> is a list in insertion order.
\<close>

record CrawlState =
  queue :: "FrontierEntry list"
  seenUrls :: "string list"
  pagesMap :: "(string \<times> Page) list"
  originalUrlsMap :: "(string \<times> string) list"
  externalLinksRegistry :: "(string \<times> nat \<times> string list) list"
  linkMetricsMap :: "(string \<times> nat \<times> nat) list"
  incomingLinksMap :: "(string \<times> nat \<times> nat) list"
  pagesCrawled :: nat
  totalUrlsDiscovered :: nat
  totalUrlsEnqueued :: nat
  totalDuplicatesSkipped :: nat
  maxDepthReached :: nat
  iterationsWithoutNewPages :: nat
  pages_table :: "PageRow list"
  job :: CrawlJob

section \<open>crawl.js: helpers\<close>

definition has_non_html_extension :: "string \<Rightarrow> string option" where
  "has_non_html_extension extension =
     (if extension \<noteq> [] \<and> extension \<in> set NON_HTML_EXTENSIONS
      then Some (''non-HTML extension (.'' @ extension @ '')'') else None)"

text \<open>\<open>shouldSkipUrl\<close> returns \<open>{ skip, reason }\<close>: \<open>Some reason\<close> when \<open>skip\<close> is true.\<close>

definition shouldSkipUrl :: "string \<Rightarrow> string option" where
  "shouldSkipUrl url =
     (if startsWith url ''mailto:'' then Some ''non-HTTP protocol (mailto)''
      else if startsWith url ''tel:'' then Some ''non-HTTP protocol (tel)''
      else if startsWith url ''javascript:'' then Some ''non-HTTP protocol (javascript)''
      else if startsWith url ''#'' then Some ''hash-only link''
      else (case new_URL url of
              None \<Rightarrow> None
            | Some parsed \<Rightarrow>
                has_non_html_extension (last (split_on CHR ''.'' (toLowerCase (pathname parsed))))))"

definition resolveUrl :: "string \<Rightarrow> string \<Rightarrow> string option" where
  "resolveUrl url baseUrl = map_option href (new_URL_base url baseUrl)"

text \<open>
  \<open>updateJobStatus(jobId, status, metadata)\<close> writes \<open>{ status, ...metadata }\<close> to the
  job row; the metadata is the function that sets its fields.
\<close>

definition updateJobStatus :: "JobStatus \<Rightarrow> (CrawlJob \<Rightarrow> CrawlJob) \<Rightarrow> CrawlJob \<Rightarrow> CrawlJob" where
  "updateJobStatus st metadata j = metadata (j\<lparr>status := st\<rparr>)"

definition progress_metadata :: "CrawlState \<Rightarrow> CrawlJob \<Rightarrow> CrawlJob" where
  "progress_metadata s j =
     j\<lparr>pages_discovered := Some (length (pagesMap s)),
       pages_crawled := Some (pagesCrawled s),
       duplicates_skipped := Some (totalDuplicatesSkipped s)\<rparr>"

definition registry_add ::
  "string \<Rightarrow> string \<Rightarrow> (string \<times> nat \<times> string list) list \<Rightarrow> (string \<times> nat \<times> string list) list" where
  "registry_add normalizedLink normalizedUrl reg =
     (case map_of reg normalizedLink of
        None \<Rightarrow> AList.update normalizedLink (1, [normalizedUrl]) reg
      | Some (occurrences, pages_found_on) \<Rightarrow>
          AList.update normalizedLink (occurrences + 1, set_add normalizedUrl pages_found_on) reg)"

definition incoming_add ::
  "string \<Rightarrow> (string \<times> nat \<times> nat) list \<Rightarrow> (string \<times> nat \<times> nat) list" where
  "incoming_add normalizedLink inc =
     (case map_of inc normalizedLink of
        None \<Rightarrow> AList.update normalizedLink (1, 0) inc
      | Some (internal_count, external_count) \<Rightarrow>
          AList.update normalizedLink (internal_count + 1, external_count) inc)"

definition incoming_get :: "(string \<times> nat \<times> nat) list \<Rightarrow> string \<Rightarrow> nat \<times> nat" where
  "incoming_get inc normalizedUrl =
     (case map_of inc normalizedUrl of None \<Rightarrow> (0, 0) | Some c \<Rightarrow> c)"

section \<open>crawl.js: one page\<close>

text \<open>
  The first pass over the links of a fetched page: the body of
  \<open>for (const link of links)\<close> that classifies a link and counts it. The accumulator is
  the state with the two local counters \<open>internalLinksOut\<close> and \<open>externalLinksOut\<close>.
\<close>

fun track_classified ::
  "string \<Rightarrow> string option \<times> bool \<Rightarrow> CrawlState \<times> nat \<times> nat \<Rightarrow> CrawlState \<times> nat \<times> nat" where
  "track_classified normalizedUrl (None, isExternal) (s, internalLinksOut, externalLinksOut) =
     (if isExternal then (s, internalLinksOut, externalLinksOut + 1)
      else (s, internalLinksOut + 1, externalLinksOut))"
| "track_classified normalizedUrl (Some normalizedLink, isExternal) (s, internalLinksOut, externalLinksOut) =
     (if isExternal
      then (s\<lparr>externalLinksRegistry :=
                 registry_add normalizedLink normalizedUrl (externalLinksRegistry s)\<rparr>,
            internalLinksOut, externalLinksOut + 1)
      else if normalizedLink \<noteq> normalizedUrl
      then (s\<lparr>incomingLinksMap := incoming_add normalizedLink (incomingLinksMap s)\<rparr>,
            internalLinksOut + 1, externalLinksOut)
      else (s, internalLinksOut + 1, externalLinksOut))"

definition track_link ::
  "string \<Rightarrow> string \<Rightarrow> string \<Rightarrow> string \<Rightarrow> CrawlState \<times> nat \<times> nat \<Rightarrow> CrawlState \<times> nat \<times> nat" where
  "track_link primaryDomain pageUrl normalizedUrl link acc =
     (if shouldSkipUrl link \<noteq> None then acc
      else if resolveUrl link pageUrl = None then acc
      else track_classified normalizedUrl (normalizeAndClassifyUrl link pageUrl primaryDomain) acc)"

text \<open>
  The second pass: the body of the loop that enqueues. The accumulator is the state with
  the local counters \<open>enqueuedCount\<close>, \<open>skippedCount\<close> and \<open>duplicatesSkipped\<close>.
\<close>

fun enqueue_classified ::
  "string \<Rightarrow> nat \<Rightarrow> string \<Rightarrow> string option \<times> bool
     \<Rightarrow> CrawlState \<times> nat \<times> nat \<times> nat \<Rightarrow> CrawlState \<times> nat \<times> nat \<times> nat" where
  "enqueue_classified primaryDomain d resolvedLink (None, isExternal) (s, enq, skipped, dups) =
     (s, enq, skipped + 1, dups)"
| "enqueue_classified primaryDomain d resolvedLink (Some normalizedLink, isExternal) (s, enq, skipped, dups) =
     (if isExternal then (s, enq, skipped + 1, dups)
      else if \<not> isPrimaryDomain normalizedLink primaryDomain then (s, enq, skipped + 1, dups)
      else if normalizedLink \<in> set (seenUrls s) \<or> normalizedLink \<in> fst ` set (pagesMap s)
      then (s, enq, skipped + 1, dups + 1)
      else if d \<ge> MAX_DEPTH then (s, enq, skipped + 1, dups)
      else (s\<lparr>seenUrls := set_add normalizedLink (seenUrls s),
              queue := queue s @ [\<lparr>normalized_url = normalizedLink, original_url = resolvedLink,
                                    depth = d + 1\<rparr>],
              totalUrlsEnqueued := totalUrlsEnqueued s + 1\<rparr>,
            enq + 1, skipped, dups))"

definition enqueue_link ::
  "string \<Rightarrow> string \<Rightarrow> nat \<Rightarrow> string
     \<Rightarrow> CrawlState \<times> nat \<times> nat \<times> nat \<Rightarrow> CrawlState \<times> nat \<times> nat \<times> nat" where
  "enqueue_link primaryDomain pageUrl d link acc =
     (if shouldSkipUrl link \<noteq> None then (fst acc, fst (snd acc), fst (snd (snd acc)) + 1, snd (snd (snd acc)))
      else (case resolveUrl link pageUrl of
              None \<Rightarrow> (fst acc, fst (snd acc), fst (snd (snd acc)) + 1, snd (snd (snd acc)))
            | Some resolvedLink \<Rightarrow>
                enqueue_classified primaryDomain d resolvedLink
                  (normalizeAndClassifyUrl link pageUrl primaryDomain) acc))"

text \<open>The page object and the row inserted for it.\<close>

definition pageObject ::
  "string \<Rightarrow> string \<Rightarrow> nat \<Rightarrow> Html \<Rightarrow> nat \<Rightarrow> nat \<Rightarrow> nat \<times> nat \<Rightarrow> Page" where
  "pageObject normalizedUrl originalUrl st doc internalLinksOut externalLinksOut incomingLinks =
     \<lparr>normalized_url = normalizedUrl, original_url = originalUrl,
      status_code = Some st, title = doc_title doc, h1 = doc_h1 doc,
      meta_description = doc_meta_description doc,
      internal_links_out = internalLinksOut, external_links_out = externalLinksOut,
      internal_links_in = fst incomingLinks, external_links_in = snd incomingLinks\<rparr>"

definition pageRow :: "string \<Rightarrow> Html \<Rightarrow> nat \<Rightarrow> Page \<Rightarrow> PageRow" where
  "pageRow jobId doc d p =
     Page.extend p (PageRow.fields jobId (doc_canonical doc) d)"

definition store_page ::
  "World \<Rightarrow> string \<Rightarrow> nat \<Rightarrow> Html \<Rightarrow> Page \<Rightarrow> CrawlState \<Rightarrow> CrawlState" where
  "store_page W normalizedUrl d doc p s =
     s\<lparr>pagesMap := AList.update normalizedUrl p (pagesMap s),
       pages_table := (if insert_error W normalizedUrl then pages_table s
                       else pages_table s @ [pageRow (job_id (job s)) doc d p])\<rparr>"

text \<open>The fail-safe at the end of an iteration; the flag is \<open>break\<close>.\<close>

fun fail_safe :: "CrawlState \<times> nat \<times> nat \<times> nat \<Rightarrow> CrawlState \<times> bool" where
  "fail_safe (s, enqueuedCount, skippedCount, duplicatesSkipped) =
     (if enqueuedCount = 0
      then (if iterationsWithoutNewPages s + 1 \<ge> 5 \<and> queue s = []
            then (s\<lparr>iterationsWithoutNewPages := iterationsWithoutNewPages s + 1\<rparr>, True)
            else (s\<lparr>iterationsWithoutNewPages := iterationsWithoutNewPages s + 1,
                    totalDuplicatesSkipped := totalDuplicatesSkipped s + duplicatesSkipped\<rparr>, False))
      else (s\<lparr>iterationsWithoutNewPages := 0,
              totalDuplicatesSkipped := totalDuplicatesSkipped s + duplicatesSkipped\<rparr>, False))"

fun store_tracked ::
  "World \<Rightarrow> string \<Rightarrow> FrontierEntry \<Rightarrow> string \<Rightarrow> nat \<Rightarrow> Html
     \<Rightarrow> CrawlState \<times> nat \<times> nat \<Rightarrow> CrawlState" where
  "store_tracked W primaryDomain e pageUrl st doc (s, internalLinksOut, externalLinksOut) =
     store_page W (normalized_url e) (depth e) doc
       (pageObject (normalized_url e) pageUrl st doc internalLinksOut externalLinksOut
          (incoming_get (incomingLinksMap s) (normalized_url e)))
       (s\<lparr>linkMetricsMap :=
            AList.update (normalized_url e) (internalLinksOut, externalLinksOut) (linkMetricsMap s)\<rparr>)"

text \<open>The part of the \<open>try\<close> block after a fetch that returned HTML.\<close>

definition process_html ::
  "World \<Rightarrow> string \<Rightarrow> FrontierEntry \<Rightarrow> string \<Rightarrow> nat \<Rightarrow> Html \<Rightarrow> CrawlState \<Rightarrow> CrawlState \<times> bool" where
  "process_html W primaryDomain e pageUrl st doc s =
     fail_safe
       (fold (enqueue_link primaryDomain pageUrl (depth e)) (doc_links doc)
          (store_tracked W primaryDomain e pageUrl st doc
             (fold (track_link primaryDomain pageUrl (normalized_url e)) (doc_links doc)
                (s\<lparr>originalUrlsMap := AList.update (normalized_url e) pageUrl (originalUrlsMap s),
                   totalUrlsDiscovered := totalUrlsDiscovered s + length (doc_links doc)\<rparr>, 0, 0)),
           0, 0, 0))"

text \<open>
  The \<open>try\<close> block: the progress write, the fetch, and the three ways on from it (the
  fetch throws and the \<open>catch\<close> continues, the response is not HTML, the page is
  processed).
\<close>

fun after_fetch ::
  "World \<Rightarrow> string \<Rightarrow> FrontierEntry \<Rightarrow> FetchResult \<Rightarrow> CrawlState \<Rightarrow> CrawlState \<times> bool" where
  "after_fetch W primaryDomain e (FetchError msg) s = (s, False)"
| "after_fetch W primaryDomain e (Fetched pageUrl st None) s = (s, False)"
| "after_fetch W primaryDomain e (Fetched pageUrl st (Some doc)) s =
     process_html W primaryDomain e pageUrl st doc s"

definition crawl_page ::
  "World \<Rightarrow> string \<Rightarrow> FrontierEntry \<Rightarrow> string \<Rightarrow> CrawlState \<Rightarrow> CrawlState \<times> bool" where
  "crawl_page W primaryDomain e absoluteUrl s =
     after_fetch W primaryDomain e (fetchPage W absoluteUrl)
       (s\<lparr>job := updateJobStatus Running (progress_metadata s) (job s)\<rparr>)"

text \<open>\<open>queueOriginalUrl\<close>, or the stored original URL, or the normalized URL itself.\<close>

definition absoluteUrl_of :: "FrontierEntry \<Rightarrow> CrawlState \<Rightarrow> string" where
  "absoluteUrl_of e s =
     (if original_url e \<noteq> [] then original_url e
      else (case map_of (originalUrlsMap s) (normalized_url e) of
              None \<Rightarrow> normalized_url e
            | Some u \<Rightarrow> if u \<noteq> [] then u else normalized_url e))"

text \<open>
  The body of the \<open>while\<close> loop for the entry \<open>e\<close> just shifted off the queue, \<open>s\<close>
  being the state after the shift.
\<close>

definition visit :: "World \<Rightarrow> string \<Rightarrow> FrontierEntry \<Rightarrow> CrawlState \<Rightarrow> CrawlState \<times> bool" where
  "visit W primaryDomain e s =
     (if depth e > MAX_DEPTH then (s, False)
      else if \<not> isPrimaryDomain (normalized_url e) primaryDomain then (s, False)
      else if normalized_url e \<in> fst ` set (pagesMap s)
      then (s\<lparr>totalDuplicatesSkipped := totalDuplicatesSkipped s + 1\<rparr>, False)
      else if shouldSkipUrl (absoluteUrl_of e s) \<noteq> None then (s, False)
      else crawl_page W primaryDomain e (absoluteUrl_of e s)
             (s\<lparr>pagesCrawled := pagesCrawled s + 1,
                maxDepthReached := max (depth e) (maxDepthReached s)\<rparr>))"

fun iteration :: "World \<Rightarrow> string \<Rightarrow> CrawlState \<Rightarrow> CrawlState \<times> bool" where
  "iteration W primaryDomain s =
     (case queue s of
        [] \<Rightarrow> (s, True)
      | e # rest \<Rightarrow> visit W primaryDomain e (s\<lparr>queue := rest\<rparr>))"

section \<open>crawl.js: the loop\<close>

text \<open>
  An iteration either counts one more crawled page or leaves the count and takes one
  entry off the queue; the loop stops at \<open>MAX_PAGES\<close>, so it always ends.
\<close>

lemma fold_track_link_same:
  "pagesCrawled (fst (fold (track_link pd u n) links acc)) = pagesCrawled (fst acc)
   \<and> queue (fst (fold (track_link pd u n) links acc)) = queue (fst acc)"
proof (induction links arbitrary: acc)
  case Nil
  then show ?case by simp
next
  case (Cons l links)
  have "pagesCrawled (fst (track_link pd u n l acc)) = pagesCrawled (fst acc)
        \<and> queue (fst (track_link pd u n l acc)) = queue (fst acc)"
    by (cases acc; cases "normalizeAndClassifyUrl l u pd"; cases "fst (normalizeAndClassifyUrl l u pd)")
       (auto simp: track_link_def)
  then show ?case using Cons.IH [of "track_link pd u n l acc"] by simp
qed

lemma enqueue_link_pagesCrawled:
  "pagesCrawled (fst (enqueue_link pd u d l acc)) = pagesCrawled (fst acc)"
  by (cases acc; cases "normalizeAndClassifyUrl l u pd"; cases "fst (normalizeAndClassifyUrl l u pd)")
     (auto simp: enqueue_link_def split: option.splits)

lemma fold_enqueue_link_pagesCrawled:
  "pagesCrawled (fst (fold (enqueue_link pd u d) links acc)) = pagesCrawled (fst acc)"
  by (induction links arbitrary: acc) (simp_all add: enqueue_link_pagesCrawled)

lemma fail_safe_pagesCrawled:
  "pagesCrawled (fst (fail_safe acc)) = pagesCrawled (fst acc)"
  by (cases acc) auto

lemma store_tracked_pagesCrawled:
  "pagesCrawled (store_tracked W pd e u st doc acc) = pagesCrawled (fst acc)"
  by (cases acc) (auto simp: store_page_def)

lemma process_html_pagesCrawled:
  "pagesCrawled (fst (process_html W pd e u st doc s)) = pagesCrawled s"
  by (simp add: process_html_def fail_safe_pagesCrawled fold_enqueue_link_pagesCrawled
        store_tracked_pagesCrawled fold_track_link_same)

lemma crawl_page_pagesCrawled:
  "pagesCrawled (fst (crawl_page W pd e a s)) = pagesCrawled s"
proof (cases "fetchPage W a")
  case (FetchError msg)
  then show ?thesis by (simp add: crawl_page_def)
next
  case (Fetched u st h)
  then show ?thesis
    by (cases h) (simp_all add: crawl_page_def process_html_pagesCrawled)
qed

lemma visit_progress:
  "pagesCrawled (fst (visit W pd e s)) = pagesCrawled s + 1
   \<or> (pagesCrawled (fst (visit W pd e s)) = pagesCrawled s \<and> queue (fst (visit W pd e s)) = queue s)"
  by (simp add: visit_def crawl_page_pagesCrawled)

lemma iteration_decreases:
  assumes "queue s \<noteq> []" and "pagesCrawled s < MAX_PAGES"
  shows "((W, pd, fst (iteration W pd s)), (W, pd, s))
           \<in> measures [\<lambda>(W, pd, s). MAX_PAGES - pagesCrawled s, \<lambda>(W, pd, s). length (queue s)]"
proof -
  obtain e rest where q: "queue s = e # rest" using assms(1) by (cases "queue s") auto
  show ?thesis
    using visit_progress [of W pd e "s\<lparr>queue := rest\<rparr>"] assms(2)
    by (auto simp: q)
qed

function crawl_loop :: "World \<Rightarrow> string \<Rightarrow> CrawlState \<Rightarrow> CrawlState" where
  "crawl_loop W primaryDomain s =
     (if queue s \<noteq> [] \<and> pagesCrawled s < MAX_PAGES
      then (if snd (iteration W primaryDomain s) then fst (iteration W primaryDomain s)
            else crawl_loop W primaryDomain (fst (iteration W primaryDomain s)))
      else s)"
  by pat_completeness auto
termination
  by (relation "measures [\<lambda>(W, pd, s). MAX_PAGES - pagesCrawled s, \<lambda>(W, pd, s). length (queue s)]")
     (use iteration_decreases in auto)

text \<open>The states the loop goes through, the first one included.\<close>

function crawl_states :: "World \<Rightarrow> string \<Rightarrow> CrawlState \<Rightarrow> CrawlState list" where
  "crawl_states W primaryDomain s =
     s # (if queue s \<noteq> [] \<and> pagesCrawled s < MAX_PAGES
          then (if snd (iteration W primaryDomain s) then [fst (iteration W primaryDomain s)]
                else crawl_states W primaryDomain (fst (iteration W primaryDomain s)))
          else [])"
  by pat_completeness auto
termination
  by (relation "measures [\<lambda>(W, pd, s). MAX_PAGES - pagesCrawled s, \<lambda>(W, pd, s). length (queue s)]")
     (use iteration_decreases in auto)

declare crawl_loop.simps [simp del] crawl_states.simps [simp del]

section \<open>crawl.js: after the loop\<close>

definition digit_char :: "nat \<Rightarrow> char" where
  "digit_char n = ''0123456789'' ! n"

text \<open>A number inside a template literal.\<close>

fun show_nat :: "nat \<Rightarrow> string" where
  "show_nat n = (if n < 10 then [digit_char n] else show_nat (n div 10) @ [digit_char (n mod 10)])"

declare show_nat.simps [simp del]

definition with_incoming :: "nat \<times> nat \<Rightarrow> 'a Page_scheme \<Rightarrow> 'a Page_scheme" where
  "with_incoming incomingLinks page =
     page\<lparr>internal_links_in := fst incomingLinks, external_links_in := snd incomingLinks\<rparr>"

text \<open>
  \<open>update(...).eq('crawl_job_id', job.id).eq('normalized_url', normalizedUrl)\<close> on the
  \<open>pages\<close> table.
\<close>

definition update_page_rows :: "string \<Rightarrow> string \<Rightarrow> Page \<Rightarrow> PageRow list \<Rightarrow> PageRow list" where
  "update_page_rows jobId normalizedUrl page rows =
     map (\<lambda>r. if crawl_job_id r = jobId \<and> normalized_url r = normalizedUrl
              then r\<lparr>internal_links_out := internal_links_out page,
                     external_links_out := external_links_out page,
                     internal_links_in := internal_links_in page,
                     external_links_in := external_links_in page\<rparr>
              else r) rows"

text \<open>The body of \<open>for (const [normalizedUrl, page] of pagesMap.entries())\<close>.\<close>

fun reconcile_page :: "string \<times> Page \<Rightarrow> CrawlState \<Rightarrow> CrawlState" where
  "reconcile_page (normalizedUrl, page) s =
     s\<lparr>pagesMap := AList.update normalizedUrl
                     (with_incoming (incoming_get (incomingLinksMap s) normalizedUrl) page)
                     (pagesMap s),
       pages_table := update_page_rows (job_id (job s)) normalizedUrl
                        (with_incoming (incoming_get (incomingLinksMap s) normalizedUrl) page)
                        (pages_table s)\<rparr>"

definition reconcile :: "CrawlState \<Rightarrow> CrawlState" where
  "reconcile s = fold reconcile_page (pagesMap s) s"

definition stopReason :: "CrawlState \<Rightarrow> string" where
  "stopReason s =
     (if pagesCrawled s \<ge> MAX_PAGES then ''MAX_PAGES limit reached ('' @ show_nat MAX_PAGES @ '')''
      else if length (queue s) = 0 then ''Queue exhausted''
      else ''No new pages added after '' @ show_nat (iterationsWithoutNewPages s) @ '' iterations'')"

definition completed_metadata :: "CrawlState \<Rightarrow> CrawlJob \<Rightarrow> CrawlJob" where
  "completed_metadata s j =
     j\<lparr>pages_discovered := Some (length (pagesMap s)),
       pages_crawled := Some (pagesCrawled s),
       duplicates_skipped := Some (totalDuplicatesSkipped s),
       stop_reason := Some (stopReason s)\<rparr>"

text \<open>
  What \<open>runCrawl\<close> does to the store once the loop has ended: the reconciliation pass,
  the external-link registry written to the job, and the job set to completed. (The CSV
  export and the comparison that follow write files only and catch their own errors.)
\<close>

definition finish_crawl :: "CrawlState \<Rightarrow> CrawlState" where
  "finish_crawl s =
     (reconcile s)\<lparr>job := updateJobStatus Completed (completed_metadata s)
                            ((job s)\<lparr>external_links := externalLinksRegistry s\<rparr>)\<rparr>"

section \<open>crawl.js: runCrawl\<close>

definition existing_page :: "PageRow \<Rightarrow> Page" where
  "existing_page row =
     \<lparr>normalized_url = normalized_url row,
      original_url = (if original_url row \<noteq> [] then original_url row else normalized_url row),
      status_code = None, title = None, h1 = None, meta_description = None,
      internal_links_out = internal_links_out row, external_links_out = external_links_out row,
      internal_links_in = internal_links_in row, external_links_in = external_links_in row\<rparr>"

text \<open>The body of \<open>existingPages.forEach\<close>: resume from the rows already stored.\<close>

definition load_page :: "string \<Rightarrow> PageRow \<Rightarrow> CrawlState \<Rightarrow> CrawlState" where
  "load_page primaryDomain row s =
     (if normalized_url row \<noteq> [] \<and> isPrimaryDomain (normalized_url row) primaryDomain
      then s\<lparr>seenUrls := set_add (normalized_url row) (seenUrls s),
             pagesMap := AList.update (normalized_url row) (existing_page row) (pagesMap s),
             originalUrlsMap := AList.update (normalized_url row)
                                  (original_url (existing_page row)) (originalUrlsMap s),
             linkMetricsMap := AList.update (normalized_url row)
                                 (internal_links_out row, external_links_out row)
                                 (linkMetricsMap s)\<rparr>
      else s)"

definition fresh_state :: "PageRow list \<Rightarrow> CrawlJob \<Rightarrow> string \<Rightarrow> string \<Rightarrow> CrawlState" where
  "fresh_state rows j seedUrl seedNormalizedForQueue =
     \<lparr>queue = [\<lparr>normalized_url = seedNormalizedForQueue, original_url = seedUrl, depth = 0\<rparr>],
      seenUrls = [], pagesMap = [], originalUrlsMap = [], externalLinksRegistry = [],
      linkMetricsMap = [(seedNormalizedForQueue, 0, 0)], incomingLinksMap = [],
      pagesCrawled = 0, totalUrlsDiscovered = 0, totalUrlsEnqueued = 0,
      totalDuplicatesSkipped = 0, maxDepthReached = 0, iterationsWithoutNewPages = 0,
      pages_table = rows, job = j\<rparr>"

definition mark_seed :: "string \<Rightarrow> string \<Rightarrow> CrawlState \<Rightarrow> CrawlState" where
  "mark_seed seedUrl seedNormalizedForQueue s =
     s\<lparr>seenUrls := set_add seedNormalizedForQueue (seenUrls s),
       originalUrlsMap := AList.update seedNormalizedForQueue seedUrl (originalUrlsMap s)\<rparr>"

definition initial_state ::
  "PageRow list \<Rightarrow> CrawlJob \<Rightarrow> string \<Rightarrow> string \<Rightarrow> string \<Rightarrow> CrawlState" where
  "initial_state rows j primaryDomain seedUrl seedNormalizedForQueue =
     mark_seed seedUrl seedNormalizedForQueue
       (fold (load_page primaryDomain) (filter (\<lambda>r. crawl_job_id r = job_id j) rows)
          (fresh_state rows j seedUrl seedNormalizedForQueue))"

definition seedUrl_of :: "CrawlJob \<Rightarrow> string" where
  "seedUrl_of j = (if startsWith (domain j) ''http'' then domain j else ''https://'' @ domain j)"

definition invalid_seed :: "string \<Rightarrow> CrawlJob \<Rightarrow> CrawlJob" where
  "invalid_seed msg j =
     updateJobStatus Failed
       (\<lambda>j. j\<lparr>error_message := Some msg, stop_reason := Some ''invalid_seed_url''\<rparr>) j"

text \<open>
  \<open>runCrawl\<close>: \<open>Inl\<close> is the early return with the job set to failed, \<open>Inr\<close> the state
  after a crawl that ran. The two watchdog timers are not part of this model.
\<close>

fun runCrawl_seed ::
  "World \<Rightarrow> PageRow list \<Rightarrow> CrawlJob \<Rightarrow> string \<Rightarrow> string \<Rightarrow> string option \<Rightarrow> CrawlJob + CrawlState" where
  "runCrawl_seed W rows j seedUrl primaryDomain None =
     Inl (invalid_seed (''Seed URL does not belong to primary domain: '' @ seedUrl) j)"
| "runCrawl_seed W rows j seedUrl primaryDomain (Some seedNormalizedForQueue) =
     (if seedNormalizedForQueue = [] \<or> \<not> isPrimaryDomain seedNormalizedForQueue primaryDomain
      then Inl (invalid_seed (''Seed URL does not belong to primary domain: '' @ seedUrl) j)
      else Inr (finish_crawl (crawl_loop W primaryDomain
                  (initial_state rows j primaryDomain seedUrl seedNormalizedForQueue))))"

fun runCrawl_domain ::
  "World \<Rightarrow> PageRow list \<Rightarrow> CrawlJob \<Rightarrow> string \<Rightarrow> string option \<Rightarrow> CrawlJob + CrawlState" where
  "runCrawl_domain W rows j seedUrl None = Inl (invalid_seed (''Invalid seed URL: '' @ seedUrl) j)"
| "runCrawl_domain W rows j seedUrl (Some primaryDomain) =
     (if primaryDomain = [] then Inl (invalid_seed (''Invalid seed URL: '' @ seedUrl) j)
      else runCrawl_seed W rows j seedUrl primaryDomain (normalizeUrl seedUrl))"

definition runCrawl :: "World \<Rightarrow> PageRow list \<Rightarrow> CrawlJob \<Rightarrow> CrawlJob + CrawlState" where
  "runCrawl W rows j = runCrawl_domain W rows j (seedUrl_of j) (extractPrimaryDomain (seedUrl_of j))"

section \<open>The link edges a crawl discovers\<close>

text \<open>
  For the statement of the in-counts: the targets of the internal links of a page that
  do not point at the page itself, one per anchor, as the first pass over the links
  classifies them; and the edges found by the iterations of a crawl from a state on.
\<close>

definition link_target :: "string \<Rightarrow> string \<Rightarrow> string \<Rightarrow> string \<Rightarrow> string list" where
  "link_target primaryDomain pageUrl normalizedUrl link =
     (if shouldSkipUrl link \<noteq> None \<or> resolveUrl link pageUrl = None then []
      else (case normalizeAndClassifyUrl link pageUrl primaryDomain of
              (Some normalizedLink, False) \<Rightarrow>
                 if normalizedLink \<noteq> normalizedUrl then [normalizedLink] else []
            | _ \<Rightarrow> []))"

definition page_targets :: "string \<Rightarrow> string \<Rightarrow> string \<Rightarrow> string list \<Rightarrow> string list" where
  "page_targets primaryDomain pageUrl normalizedUrl links =
     concat (map (link_target primaryDomain pageUrl normalizedUrl) links)"

fun fetched_edges :: "string \<Rightarrow> string \<Rightarrow> FetchResult \<Rightarrow> (string \<times> string) list" where
  "fetched_edges primaryDomain normalizedUrl (Fetched pageUrl st (Some doc)) =
     map (Pair normalizedUrl) (page_targets primaryDomain pageUrl normalizedUrl (doc_links doc))"
| "fetched_edges primaryDomain normalizedUrl r = []"

definition visit_edges :: "World \<Rightarrow> string \<Rightarrow> FrontierEntry \<Rightarrow> CrawlState \<Rightarrow> (string \<times> string) list" where
  "visit_edges W primaryDomain e s =
     (if depth e > MAX_DEPTH \<or> \<not> isPrimaryDomain (normalized_url e) primaryDomain
         \<or> normalized_url e \<in> fst ` set (pagesMap s) \<or> shouldSkipUrl (absoluteUrl_of e s) \<noteq> None
      then []
      else fetched_edges primaryDomain (normalized_url e) (fetchPage W (absoluteUrl_of e s)))"

fun iteration_edges :: "World \<Rightarrow> string \<Rightarrow> CrawlState \<Rightarrow> (string \<times> string) list" where
  "iteration_edges W primaryDomain s =
     (case queue s of
        [] \<Rightarrow> []
      | e # rest \<Rightarrow> visit_edges W primaryDomain e (s\<lparr>queue := rest\<rparr>))"

function crawl_edges :: "World \<Rightarrow> string \<Rightarrow> CrawlState \<Rightarrow> (string \<times> string) list" where
  "crawl_edges W primaryDomain s =
     (if queue s \<noteq> [] \<and> pagesCrawled s < MAX_PAGES
      then iteration_edges W primaryDomain s
           @ (if snd (iteration W primaryDomain s) then []
              else crawl_edges W primaryDomain (fst (iteration W primaryDomain s)))
      else [])"
  by pat_completeness auto
termination
  by (relation "measures [\<lambda>(W, pd, s). MAX_PAGES - pagesCrawled s, \<lambda>(W, pd, s). length (queue s)]")
     (use iteration_decreases in auto)

declare crawl_edges.simps [simp del]

section \<open>The frontier invariant and a small site\<close>

text \<open>No normalized URL twice in the queue, and every queued URL in the seen-set.\<close>

definition frontier_inv :: "CrawlState \<Rightarrow> bool" where
  "frontier_inv s =
     (distinct (map normalized_url (queue s))
      \<and> set (map normalized_url (queue s)) \<subseteq> set (seenUrls s))"

text \<open>
  A site of two pages, used to run the model: the home page links to \<open>/about\<close> twice
  (two spellings of one page) and to another site; the about page links back.
\<close>

definition demo_home :: Html where
  "demo_home =
     \<lparr>doc_title = Some ''Home'', doc_h1 = None, doc_meta_description = None,
      doc_canonical = None,
      doc_links = [''https://example.com/about'', ''/about/'', ''https://external.org/'']\<rparr>"

definition demo_about :: Html where
  "demo_about =
     \<lparr>doc_title = Some ''About'', doc_h1 = None, doc_meta_description = None,
      doc_canonical = None, doc_links = [''https://example.com/'']\<rparr>"

definition demo_world :: World where
  "demo_world =
     \<lparr>fetchPage = (\<lambda>url.
         if url = ''https://example.com'' then Fetched ''https://example.com/'' 200 (Some demo_home)
         else if url = ''https://example.com/about''
         then Fetched ''https://example.com/about'' 200 (Some demo_about)
         else FetchError ''Network error''),
      insert_error = (\<lambda>url. False)\<rparr>"

definition demo_job :: CrawlJob where
  "demo_job =
     \<lparr>job_id = ''job-1'', domain = ''example.com'', project_id = ''project-1'', status = Running,
      stop_reason = None, error_message = None, pages_discovered = None,
      pages_crawled = None, duplicates_skipped = None, external_links = []\<rparr>"

definition demo_start :: CrawlState where
  "demo_start =
     initial_state [] demo_job ''example.com'' ''https://example.com'' ''https://example.com/''"

text \<open>The same crawl one page before the limit, both pages seen and queued.\<close>

definition demo_near_limit :: CrawlState where
  "demo_near_limit =
     demo_start\<lparr>pagesCrawled := 999,
                seenUrls := [''https://example.com/'', ''https://example.com/about''],
                queue := [\<lparr>normalized_url = ''https://example.com/'',
                           original_url = ''https://example.com'', depth = 0\<rparr>,
                          \<lparr>normalized_url = ''https://example.com/about'',
                           original_url = ''https://example.com/about'', depth = 1\<rparr>]\<rparr>"

text \<open>The state the small crawl ends in, and a queue entry on a subdomain.\<close>

definition demo_final :: CrawlState where
  "demo_final = finish_crawl (crawl_loop demo_world ''example.com'' demo_start)"

definition demo_blog_entry :: FrontierEntry where
  "demo_blog_entry =
     \<lparr>normalized_url = ''https://blog.example.com/'', original_url = ''https://blog.example.com/'',
      depth = 1\<rparr>"

text \<open>
  A stored row is reconciled for a set of URLs when, being a row of the job with its URL in
  the set, it carries the accumulated incoming counts.
\<close>

definition row_reconciled :: "string \<Rightarrow> (string \<times> nat \<times> nat) list \<Rightarrow> string set \<Rightarrow> PageRow \<Rightarrow> bool" where
  "row_reconciled jobId inc D r =
     (crawl_job_id r = jobId \<and> normalized_url r \<in> D
      \<longrightarrow> internal_links_in r = fst (incoming_get inc (normalized_url r))
          \<and> external_links_in r = snd (incoming_get inc (normalized_url r)))"

text \<open>
  Every stored row of the job has its URL among the keys of the page map: what holds of
  a crawl that found no stored row of its job when it started.
\<close>

definition rows_in_map :: "CrawlState \<Rightarrow> bool" where
  "rows_in_map s =
     (\<forall>r \<in> set (pages_table s).
        crawl_job_id r = job_id (job s) \<longrightarrow> normalized_url r \<in> fst ` set (pagesMap s))"

section \<open>content-extraction.js: data\<close>

text \<open>
  The row of \<open>content_extraction_jobs\<close> (timestamps left out). Its fields carry the
  prefix \<open>ex_\<close> where the crawl job has a field of the same name.
\<close>

record ExtractionJob =
  ex_id :: string
  ex_crawl_job_id :: string
  ex_status :: JobStatus
  only_missing :: bool
  pages_total :: "nat option"
  pages_extracted :: "nat option"
  pages_failed :: "nat option"
  pages_skipped :: "nat option"
  pages_in_database :: "nat option"
  failed_urls :: "(string \<times> string) list option"
  ex_error_message :: "string option"

text \<open>
  What \<open>extractPageContent\<close> returns for a page, as far as the pipeline looks at it
  (the SEO block and the JSON-LD list travel with it in the same way).
\<close>

record ExtractedContent =
  clean_text :: string
  headings :: "string list \<times> string list \<times> string list"
  raw_html :: "string option"

text \<open>
  The table \<open>page_content\<close>, keyed by \<open>(crawl_job_id, normalized_url)\<close>, and the
  world around the pipeline: the stored crawl jobs, the error the store may answer to
  the lookup of a crawl job by id (a failed connection, a refused request), the outcome
  of the job insert, the page query (\<open>Inl\<close> is \<open>pagesError.message\<close>), whether the
  query for existing content fails, the extractor (\<open>Inl\<close> is the message of the error
  it throws), and the errors the store answers to upsert, delete and insert of a
  content row.
\<close>

type_synonym ContentTable = "((string \<times> string) \<times> ExtractedContent) list"

record ExtractionWorld =
  crawl_jobs :: "CrawlJob list"
  lookup_error :: "string \<Rightarrow> string option"
  insert_job_error :: "string option"
  new_job_id :: string
  select_pages :: "string \<Rightarrow> string + PageRow list"
  select_content_fails :: bool
  extractPageContent :: "string \<Rightarrow> string + ExtractedContent"
  upsert_error :: "string \<Rightarrow> string option"
  delete_error :: "string \<Rightarrow> string option"
  insert_content_error :: "string \<Rightarrow> string option"

text \<open>The local variables of \<open>runContentExtraction\<close>, the table and the job row.\<close>

record ExtractionState =
  pagesExtracted :: nat
  pagesFailed :: nat
  failedUrls :: "(string \<times> string) list"
  page_content :: ContentTable
  ex_job :: ExtractionJob

section \<open>content-extraction.js: starting a job\<close>

text \<open>
  The client's \<open>.single()\<close> on the rows a query selected: the one row, or the client's
  own error when the rows are not exactly one.
\<close>

fun single :: "'a list \<Rightarrow> 'a option \<times> string option" where
  "single [r] = (Some r, None)"
| "single rows = (None, Some ''PGRST116'')"

text \<open>
  \<open>from('crawl_jobs').select('id, domain, status').eq('id', sitemapId).single()\<close>:
  the pair \<open>{ data, error }\<close>. When the store answers the query with an error there is
  no data, whatever the table holds.
\<close>

fun select_single :: "string option \<Rightarrow> 'a list \<Rightarrow> 'a option \<times> string option" where
  "select_single (Some msg) rows = (None, Some msg)"
| "select_single None rows = single rows"

definition lookup_crawl_job :: "ExtractionWorld \<Rightarrow> string \<Rightarrow> CrawlJob option \<times> string option" where
  "lookup_crawl_job W sitemapId =
     select_single (lookup_error W sitemapId) (filter (\<lambda>j. job_id j = sitemapId) (crawl_jobs W))"

fun create_extraction_job ::
  "string option \<Rightarrow> string \<Rightarrow> string \<Rightarrow> bool \<Rightarrow> string + ExtractionJob" where
  "create_extraction_job (Some msg) newId sitemapId onlyMissing =
     Inl (''Failed to create content extraction job: '' @ msg)"
| "create_extraction_job None newId sitemapId onlyMissing =
     Inr \<lparr>ex_id = newId, ex_crawl_job_id = sitemapId, ex_status = Running,
          only_missing = onlyMissing, pages_total = None, pages_extracted = None,
          pages_failed = None, pages_skipped = None, pages_in_database = None,
          failed_urls = None, ex_error_message = None\<rparr>"

fun start_after_lookup ::
  "ExtractionWorld \<Rightarrow> string \<Rightarrow> bool \<Rightarrow> CrawlJob option \<times> string option \<Rightarrow> string + ExtractionJob" where
  "start_after_lookup W sitemapId onlyMissing (Some crawlJob, None) =
     create_extraction_job (insert_job_error W) (new_job_id W) sitemapId onlyMissing"
| "start_after_lookup W sitemapId onlyMissing (crawlJob, jobError) =
     Inl (''Crawl job '' @ sitemapId @ '' not found'')"

text \<open>
  \<open>startContentExtraction(sitemapId, options)\<close>; \<open>Inl\<close> is the message of the error
  thrown. The option \<open>onlyMissing\<close> defaults to true. The test after the lookup is
  \<open>jobError || !crawlJob\<close>: only a lookup without error and with a row goes on.
\<close>

definition startContentExtraction :: "ExtractionWorld \<Rightarrow> string \<Rightarrow> bool option \<Rightarrow> string + ExtractionJob" where
  "startContentExtraction W sitemapId options =
     start_after_lookup W sitemapId (case options of None \<Rightarrow> True | Some b \<Rightarrow> b)
       (lookup_crawl_job W sitemapId)"

section \<open>content-extraction.js: one page\<close>

definition BATCH_SIZE :: nat where
  "BATCH_SIZE = 10"

fun insert_fresh ::
  "string option \<Rightarrow> string \<Rightarrow> (string \<times> string) \<Rightarrow> ExtractedContent \<Rightarrow> ContentTable
     \<Rightarrow> ContentTable \<times> string option" where
  "insert_fresh None upsertMessage key content table = (table @ [(key, content)], None)"
| "insert_fresh (Some insertMessage) upsertMessage key content table =
     (table, Some (''Database error (upsert failed, insert also failed): '' @ insertMessage
                   @ ''. Original: '' @ upsertMessage))"

fun delete_existing :: "string option \<Rightarrow> (string \<times> string) \<Rightarrow> ContentTable \<Rightarrow> ContentTable" where
  "delete_existing None key table = AList.delete key table"
| "delete_existing (Some deleteMessage) key table = table"

text \<open>
  The upsert with its fallback. The result is the table afterwards and, when the
  fallback insert fails too, the message of the error thrown. (The read-back that
  follows a successful write only logs.)
\<close>

fun persist_content ::
  "ExtractionWorld \<Rightarrow> string option \<Rightarrow> string \<Rightarrow> string \<Rightarrow> ExtractedContent \<Rightarrow> ContentTable
     \<Rightarrow> ContentTable \<times> string option" where
  "persist_content W None sitemapId normalizedUrl content table =
     (AList.update (sitemapId, normalizedUrl) content table, None)"
| "persist_content W (Some upsertMessage) sitemapId normalizedUrl content table =
     insert_fresh (insert_content_error W normalizedUrl) upsertMessage (sitemapId, normalizedUrl)
       content
       (delete_existing (delete_error W normalizedUrl) (sitemapId, normalizedUrl) table)"

definition page_url :: "PageRow \<Rightarrow> string" where
  "page_url page = (if original_url page \<noteq> [] then original_url page else normalized_url page)"

fun storage_url :: "string option \<Rightarrow> PageRow \<Rightarrow> string" where
  "storage_url None page = normalized_url page"
| "storage_url (Some n) page = (if n \<noteq> [] then n else normalized_url page)"

text \<open>The end of the \<open>try\<close> block and the \<open>catch\<close> of one page.\<close>

fun count_page :: "string \<Rightarrow> ContentTable \<times> string option \<Rightarrow> ExtractionState \<Rightarrow> ExtractionState" where
  "count_page url (table, None) s =
     s\<lparr>page_content := table, pagesExtracted := pagesExtracted s + 1\<rparr>"
| "count_page url (table, Some msg) s =
     s\<lparr>page_content := table, pagesFailed := pagesFailed s + 1,
       failedUrls := failedUrls s @ [(url, msg)]\<rparr>"

fun after_extract ::
  "ExtractionWorld \<Rightarrow> string \<Rightarrow> PageRow \<Rightarrow> string + ExtractedContent \<Rightarrow> ExtractionState
     \<Rightarrow> ExtractionState" where
  "after_extract W sitemapId page (Inl msg) s =
     s\<lparr>pagesFailed := pagesFailed s + 1, failedUrls := failedUrls s @ [(page_url page, msg)]\<rparr>"
| "after_extract W sitemapId page (Inr content) s =
     count_page (page_url page)
       (persist_content W (upsert_error W (storage_url (normalizeUrl (page_url page)) page))
          sitemapId (storage_url (normalizeUrl (page_url page)) page) content (page_content s))
       s"

definition process_page :: "ExtractionWorld \<Rightarrow> string \<Rightarrow> PageRow \<Rightarrow> ExtractionState \<Rightarrow> ExtractionState" where
  "process_page W sitemapId page s =
     after_extract W sitemapId page (extractPageContent W (page_url page)) s"

section \<open>content-extraction.js: the job\<close>

definition updateExtractionJobStatus ::
  "JobStatus \<Rightarrow> (ExtractionJob \<Rightarrow> ExtractionJob) \<Rightarrow> ExtractionJob \<Rightarrow> ExtractionJob" where
  "updateExtractionJobStatus st metadata j = metadata (j\<lparr>ex_status := st\<rparr>)"

text \<open>\<open>pages.slice(i, i + BATCH_SIZE)\<close> for \<open>i = 0, BATCH_SIZE, ...\<close>\<close>

function batches_of :: "nat \<Rightarrow> 'a list \<Rightarrow> 'a list list" where
  "batches_of n xs = (if n = 0 \<or> xs = [] then [] else take n xs # batches_of n (drop n xs))"
  by pat_completeness auto
termination
  by (relation "measure (\<lambda>(n, xs). length xs)") auto

declare batches_of.simps [simp del]

text \<open>
  One batch: its pages, then the progress written to the job. The source starts the
  pages of a batch together and waits for all of them; the model takes them in list
  order, which the counters cannot tell apart. The pause between batches is left out.
\<close>

definition report_progress :: "nat \<Rightarrow> ExtractionState \<Rightarrow> ExtractionState" where
  "report_progress pagesTotal s =
     s\<lparr>ex_job := updateExtractionJobStatus Running
                   (\<lambda>j. j\<lparr>pages_total := Some pagesTotal, pages_extracted := Some (pagesExtracted s),
                           pages_failed := Some (pagesFailed s)\<rparr>)
                   (ex_job s)\<rparr>"

definition process_batch ::
  "ExtractionWorld \<Rightarrow> string \<Rightarrow> nat \<Rightarrow> PageRow list \<Rightarrow> ExtractionState \<Rightarrow> ExtractionState" where
  "process_batch W sitemapId pagesTotal batch s =
     report_progress pagesTotal (fold (process_page W sitemapId) batch s)"

text \<open>\<open>dbCount || null\<close> and \<open>failedUrls.length > 0 ? failedUrls : null\<close>\<close>

definition count_or_null :: "nat \<Rightarrow> nat option" where
  "count_or_null n = (if n = 0 then None else Some n)"

definition list_or_null :: "'a list \<Rightarrow> 'a list option" where
  "list_or_null xs = (if length xs > 0 then Some xs else None)"

definition mark_completed :: "nat \<Rightarrow> string \<Rightarrow> ExtractionState \<Rightarrow> ExtractionState" where
  "mark_completed pagesTotal sitemapId s =
     s\<lparr>ex_job := updateExtractionJobStatus Completed
                   (\<lambda>j. j\<lparr>pages_total := Some pagesTotal, pages_extracted := Some (pagesExtracted s),
                           pages_failed := Some (pagesFailed s),
                           pages_in_database :=
                             count_or_null (length (filter (\<lambda>(k, c). fst k = sitemapId) (page_content s))),
                           failed_urls := list_or_null (failedUrls s)\<rparr>)
                   (ex_job s)\<rparr>"

definition start_state :: "ContentTable \<Rightarrow> ExtractionJob \<Rightarrow> ExtractionState" where
  "start_state table j =
     \<lparr>pagesExtracted = 0, pagesFailed = 0, failedUrls = [], page_content = table, ex_job = j\<rparr>"

definition extract_selected ::
  "ExtractionWorld \<Rightarrow> ContentTable \<Rightarrow> ExtractionJob \<Rightarrow> PageRow list \<Rightarrow> PageRow list \<Rightarrow> ExtractionState" where
  "extract_selected W table j allPages pages =
     (if pages = []
      then (start_state table j)
             \<lparr>ex_job := updateExtractionJobStatus Completed
                           (\<lambda>j. j\<lparr>pages_total := Some (length allPages), pages_extracted := Some 0,
                                   pages_failed := Some 0, pages_skipped := Some (length allPages)\<rparr>) j\<rparr>
      else mark_completed (length pages) (ex_crawl_job_id j)
             (fold (process_batch W (ex_crawl_job_id j) (length pages)) (batches_of BATCH_SIZE pages)
                (start_state table j)))"

text \<open>The pages to process: all of them, or those without a content row.\<close>

definition existing_urls :: "ExtractionWorld \<Rightarrow> string \<Rightarrow> ContentTable \<Rightarrow> string list" where
  "existing_urls W sitemapId table =
     (if select_content_fails W then []
      else map (\<lambda>(k, c). snd k) (filter (\<lambda>(k, c). fst k = sitemapId) table))"

definition select_missing ::
  "ExtractionWorld \<Rightarrow> ContentTable \<Rightarrow> ExtractionJob \<Rightarrow> PageRow list \<Rightarrow> PageRow list" where
  "select_missing W table j allPages =
     (if only_missing j
      then filter (\<lambda>page. normalized_url page \<notin> set (existing_urls W (ex_crawl_job_id j) table)) allPages
      else allPages)"

fun after_select ::
  "ExtractionWorld \<Rightarrow> ContentTable \<Rightarrow> ExtractionJob \<Rightarrow> string + PageRow list \<Rightarrow> ExtractionState" where
  "after_select W table j (Inl msg) =
     (start_state table j)
       \<lparr>ex_job := updateExtractionJobStatus Failed
                     (\<lambda>j. j\<lparr>ex_error_message := Some (''Failed to fetch pages: '' @ msg)\<rparr>) j\<rparr>"
| "after_select W table j (Inr allPages) =
     (if allPages = []
      then (start_state table j)
             \<lparr>ex_job := updateExtractionJobStatus Completed
                           (\<lambda>j. j\<lparr>pages_total := Some 0, pages_extracted := Some 0,
                                   pages_failed := Some 0\<rparr>) j\<rparr>
      else extract_selected W table j allPages (select_missing W table j allPages))"

text \<open>
  \<open>runContentExtraction(extractionJob)\<close> on a content table: the state it ends in. (When
  the page query fails the source also rethrows; the caller only logs that.)
\<close>

definition runContentExtraction :: "ExtractionWorld \<Rightarrow> ContentTable \<Rightarrow> ExtractionJob \<Rightarrow> ExtractionState" where
  "runContentExtraction W table j = after_select W table j (select_pages W (ex_crawl_job_id j))"

section \<open>A small extraction job\<close>

text \<open>
  The two pages of the small site as stored rows, a crawl job that has failed, and a
  store that refuses both the upsert and the insert for the about page.
\<close>

definition demo_row_home :: PageRow where
  "demo_row_home =
     pageRow ''job-1'' demo_home 0
       (pageObject ''https://example.com/'' ''https://example.com/'' 200 demo_home 2 1 (1, 0))"

definition demo_row_about :: PageRow where
  "demo_row_about =
     pageRow ''job-1'' demo_about 1
       (pageObject ''https://example.com/about'' ''https://example.com/about'' 200 demo_about 1 0 (2, 0))"

definition demo_content :: ExtractedContent where
  "demo_content = \<lparr>clean_text = ''Welcome'', headings = ([''Welcome''], [], []), raw_html = None\<rparr>"

definition demo_extraction_world :: ExtractionWorld where
  "demo_extraction_world =
     \<lparr>crawl_jobs = [demo_job\<lparr>status := Failed, stop_reason := Some ''timeout''\<rparr>],
      lookup_error = (\<lambda>sitemapId. None),
      insert_job_error = None,
      new_job_id = ''extraction-1'',
      select_pages = (\<lambda>sitemapId. if sitemapId = ''job-1'' then Inr [demo_row_home, demo_row_about]
                                      else Inr []),
      select_content_fails = False,
      extractPageContent = (\<lambda>url. Inr demo_content),
      upsert_error = (\<lambda>n. if n = ''https://example.com/about'' then Some ''no unique constraint''
                            else None),
      delete_error = (\<lambda>n. None),
      insert_content_error = (\<lambda>n. if n = ''https://example.com/about'' then Some ''duplicate key''
                                    else None)\<rparr>"

definition demo_extraction_job :: "bool \<Rightarrow> ExtractionJob" where
  "demo_extraction_job onlyMissing =
     \<lparr>ex_id = ''extraction-1'', ex_crawl_job_id = ''job-1'', ex_status = Running,
      only_missing = onlyMissing, pages_total = None, pages_extracted = None,
      pages_failed = None, pages_skipped = None, pages_in_database = None,
      failed_urls = None, ex_error_message = None\<rparr>"

text \<open>The same world while the store does not answer lookups.\<close>

definition demo_unreachable_world :: ExtractionWorld where
  "demo_unreachable_world =
     demo_extraction_world\<lparr>lookup_error := (\<lambda>sitemapId. Some ''fetch failed'')\<rparr>"

text \<open>A content table that already holds both pages.\<close>

definition demo_full_table :: ContentTable where
  "demo_full_table =
     [((''job-1'', ''https://example.com/''), demo_content),
      ((''job-1'', ''https://example.com/about''), demo_content)]"

section \<open>Evaluating the model\<close>

text \<open>The defining equations the simplifier unfolds to run the model on a concrete URL.\<close>

lemmas str_defs = isDigit_def isLower_def isUpper_def isAlnum_def isHex_def toLowerCase_char_def
  toLowerCase_def startsWith_def endsWith_def hex_value_def digits_value_def

lemmas url_defs = is_number_label_def valid_label_def valid_labels_def valid_host_def valid_port_def
  canon_port_def drop_default_port_def isPathChar_def is_dot_segment_def valid_path_def
  valid_query_def valid_fragment_def new_URL_def new_URL_scheme_def new_URL_authority_def
  new_URL_query_def new_URL_components_def new_URL_base_def href_def set_hostname_def strip_www_def
  isSchemeChar_def has_scheme_def serialize_path_def origin_of_def resolve_reference_def
  char_of_def bit_Suc_0_iff

lemmas norm_defs = normalize_pathname_def strip_trailing_slash_def ensure_leading_slash_def
  lowercase_protocol_def strip_www_hostname_def remove_default_port_def clear_hash_def
  clear_search_def normalized_string_def normalizeUrl_def extractPrimaryDomain_def
  isPrimaryDomain_def normalizeAndClassifyUrl_def

lemmas pag_defs = PAGINATION_PARAMS_def trackingParams_def urldecode_def hexDigitsUpper_def
  urlencode_char_def urlencode_def parse_params_def searchParams_def query_string_def
  delete_param_def is_tracking_keyLower_def is_tracking_key_def set_add_def paramsToRemove_def
  remove_tracking_params_def normalized_string_paginated_def normalizeUrl_paginated_def

lemmas skip_defs = NON_HTML_EXTENSIONS_def has_non_html_extension_def shouldSkipUrl_def
  resolveUrl_def

lemmas crawl_defs = MAX_PAGES_def MAX_DEPTH_def updateJobStatus_def progress_metadata_def registry_add_def
  incoming_add_def incoming_get_def track_link_def enqueue_link_def pageObject_def pageRow_def
  store_page_def process_html_def crawl_page_def absoluteUrl_of_def visit_def
  with_incoming_def update_page_rows_def reconcile_def stopReason_def completed_metadata_def
  finish_crawl_def existing_page_def load_page_def fresh_state_def mark_seed_def initial_state_def
  seedUrl_of_def invalid_seed_def runCrawl_def set_add_def digit_char_def
  Page.extend_def PageRow.fields_def

lemmas demo_defs = demo_home_def demo_about_def demo_world_def demo_job_def demo_start_def
  demo_near_limit_def

text \<open>The URL functions on the URLs of the small site.\<close>

lemma demo_urls:
  "extractPrimaryDomain ''https://example.com'' = Some ''example.com''"
  "normalizeUrl ''https://example.com'' = Some ''https://example.com/''"
  "isPrimaryDomain ''https://example.com/'' ''example.com''"
  "isPrimaryDomain ''https://example.com/about'' ''example.com''"
  "shouldSkipUrl ''https://example.com'' = None"
  "shouldSkipUrl ''https://example.com/about'' = None"
  "shouldSkipUrl ''/about/'' = None"
  "shouldSkipUrl ''https://external.org/'' = None"
  "shouldSkipUrl ''https://example.com/'' = None"
  "resolveUrl ''https://example.com/about'' ''https://example.com/'' = Some ''https://example.com/about''"
  "resolveUrl ''/about/'' ''https://example.com/'' = Some ''https://example.com/about/''"
  "resolveUrl ''https://external.org/'' ''https://example.com/'' = Some ''https://external.org/''"
  "resolveUrl ''https://example.com/'' ''https://example.com/about'' = Some ''https://example.com/''"
  "normalizeAndClassifyUrl ''https://example.com/about'' ''https://example.com/'' ''example.com''
     = (Some ''https://example.com/about'', False)"
  "normalizeAndClassifyUrl ''/about/'' ''https://example.com/'' ''example.com''
     = (Some ''https://example.com/about'', False)"
  "normalizeAndClassifyUrl ''https://external.org/'' ''https://example.com/'' ''example.com''
     = (Some ''https://external.org/'', True)"
  "normalizeAndClassifyUrl ''https://example.com/'' ''https://example.com/about'' ''example.com''
     = (Some ''https://example.com/'', False)"
  by (simp_all add: str_defs url_defs norm_defs skip_defs)

section \<open>Query parameters (C1)\<close>

lemma fold_delete_param:
  "fold delete_param names ps = filter (\<lambda>(n, v). n \<notin> set names) ps"
  by (induction names arbitrary: ps) (auto simp: delete_param_def intro: filter_cong)

lemma set_fold_set_add:
  "set (fold (\<lambda>(key, v) acc. if P key then set_add key acc else acc) ps acc)
     = set acc \<union> {k. \<exists>v. (k, v) \<in> set ps \<and> P k}"
proof (induction ps arbitrary: acc)
  case Nil
  then show ?case by simp
next
  case (Cons p ps)
  obtain k v where p: "p = (k, v)" by (cases p)
  show ?case
    by (cases "P k") (auto simp: p Cons.IH set_add_def)
qed

lemma set_paramsToRemove:
  "set (paramsToRemove u) = {k. \<exists>v. (k, v) \<in> set (searchParams u) \<and> is_tracking_key k}"
  by (simp add: paramsToRemove_def set_fold_set_add)

lemma kept_params:
  "fold delete_param (paramsToRemove u) (searchParams u)
     = filter (\<lambda>(k, v). \<not> is_tracking_key k) (searchParams u)"
  unfolding fold_delete_param set_paramsToRemove
  by (rule filter_cong) auto

lemma is_tracking_key_iff:
  "is_tracking_key key \<longleftrightarrow>
     startsWith (toLowerCase key) ''utm_'' \<or> toLowerCase key = ''fbclid''
       \<or> toLowerCase key = ''gclid''"
  by (auto simp: is_tracking_key_def is_tracking_keyLower_def PAGINATION_PARAMS_def
        trackingParams_def startsWith_def)

lemma paramsToRemove_Nil_iff:
  "paramsToRemove u = [] \<longleftrightarrow> list_all (\<lambda>(k, v). \<not> is_tracking_key k) (searchParams u)"
  using set_paramsToRemove [of u] by (auto simp flip: set_empty simp: list_all_iff)

lemma searchParams_prefix [simp]:
  "searchParams (clear_hash u) = searchParams u"
  "searchParams (strip_www_hostname u) = searchParams u"
  "searchParams (lowercase_protocol u) = searchParams u"
  by (simp_all add: searchParams_def clear_hash_def strip_www_hostname_def set_hostname_def
        lowercase_protocol_def)

lemma search_prefix [simp]:
  "search (clear_hash u) = search u"
  "search (strip_www_hostname u) = search u"
  "search (lowercase_protocol u) = search u"
  by (simp_all add: clear_hash_def strip_www_hostname_def set_hostname_def lowercase_protocol_def)

lemma remove_tracking_params_fields [simp]:
  "protocol (remove_tracking_params u) = protocol u"
  "hostname (remove_tracking_params u) = hostname u"
  "pathname (remove_tracking_params u) = pathname u"
  by (simp_all add: remove_tracking_params_def)

lemma search_remove_tracking_params:
  "search (remove_tracking_params u) =
     (if list_all (\<lambda>(k, v). \<not> is_tracking_key k) (searchParams u) then search u
      else query_string (filter (\<lambda>(k, v). \<not> is_tracking_key k) (searchParams u)))"
  by (simp add: remove_tracking_params_def kept_params paramsToRemove_Nil_iff)

text \<open>
  C1 (as the code has it). Of the two generations of \<open>normalizeUrl\<close>, the one kept in
  \<open>src/normalize.js\<close> removes exactly the parameters whose lower-cased key starts with
  \<open>utm_\<close> or is \<open>fbclid\<close> or \<open>gclid\<close>, and keeps every other parameter, pagination or
  not, in order: the query string is left as written when it holds no tracking
  parameter, and is the serialisation of the remaining parameters otherwise. The one the
  crawl imports builds its result from scheme, host, port and path only, so the result
  carries no query parameter at all, pagination included.
\<close>

theorem normalizeUrl_query_parameters:
  assumes "new_URL url = Some parsedUrl"
  shows "normalizeUrl_paginated url =
           Some (protocol (lowercase_protocol parsedUrl) @ ''//''
                 @ hostname (strip_www_hostname (lowercase_protocol parsedUrl))
                 @ normalize_pathname (pathname (strip_www_hostname (lowercase_protocol parsedUrl)))
                 @ (if list_all (\<lambda>(k, v). \<not> is_tracking_key k) (searchParams parsedUrl)
                    then search parsedUrl
                    else query_string (filter (\<lambda>(k, v). \<not> is_tracking_key k)
                                          (searchParams parsedUrl))))
         \<and> (is_tracking_key key \<longleftrightarrow>
              startsWith (toLowerCase key) ''utm_'' \<or> toLowerCase key = ''fbclid''
                \<or> toLowerCase key = ''gclid'')
         \<and> normalizeUrl url =
             Some (normalized_string (remove_default_port (strip_www_hostname
                     (lowercase_protocol (parsedUrl\<lparr>search := [], hash := []\<rparr>)))))"
proof (intro conjI)
  show "normalizeUrl_paginated url =
           Some (protocol (lowercase_protocol parsedUrl) @ ''//''
                 @ hostname (strip_www_hostname (lowercase_protocol parsedUrl))
                 @ normalize_pathname (pathname (strip_www_hostname (lowercase_protocol parsedUrl)))
                 @ (if list_all (\<lambda>(k, v). \<not> is_tracking_key k) (searchParams parsedUrl)
                    then search parsedUrl
                    else query_string (filter (\<lambda>(k, v). \<not> is_tracking_key k)
                                          (searchParams parsedUrl))))"
    using assms
    by (simp add: normalizeUrl_paginated_def normalized_string_paginated_def
          search_remove_tracking_params)
      (simp add: clear_hash_def strip_www_hostname_def set_hostname_def lowercase_protocol_def)
  show "is_tracking_key key \<longleftrightarrow>
           startsWith (toLowerCase key) ''utm_'' \<or> toLowerCase key = ''fbclid''
             \<or> toLowerCase key = ''gclid''"
    by (rule is_tracking_key_iff)
  show "normalizeUrl url =
           Some (normalized_string (remove_default_port (strip_www_hostname
                   (lowercase_protocol (parsedUrl\<lparr>search := [], hash := []\<rparr>)))))"
    using assms
    by (simp add: normalizeUrl_def normalized_string_def clear_search_def clear_hash_def
          remove_default_port_def strip_www_hostname_def set_hostname_def lowercase_protocol_def)
qed

lemma new_URL_listing:
  "new_URL ''https://www.example.com/list?utm_source=x&page=2&ref=abc'' =
     Some \<lparr>protocol = ''https:'', hostname = ''www.example.com'', port = [],
           pathname = ''/list'', search = ''?utm_source=x&page=2&ref=abc'', hash = []\<rparr>"
  by (simp add: str_defs url_defs)

theorem normalizeUrl_query_parameters_witness:
  "new_URL ''https://www.example.com/list?utm_source=x&page=2&ref=abc'' =
     Some \<lparr>protocol = ''https:'', hostname = ''www.example.com'', port = [],
           pathname = ''/list'', search = ''?utm_source=x&page=2&ref=abc'', hash = []\<rparr>
   \<and> normalizeUrl_paginated ''https://www.example.com/list?utm_source=x&page=2&ref=abc''
       = Some ''https://example.com/list?page=2&ref=abc''
   \<and> normalizeUrl ''https://www.example.com/list?utm_source=x&page=2&ref=abc''
       = Some ''https://example.com/list''"
  using normalizeUrl_query_parameters [OF new_URL_listing]
  by (simp add: new_URL_listing str_defs url_defs pag_defs normalize_pathname_def
        strip_trailing_slash_def ensure_leading_slash_def lowercase_protocol_def
        strip_www_hostname_def remove_default_port_def normalized_string_def)

text \<open>
  C1 as stated fails on both generations: the one that keeps pagination also keeps the
  parameter \<open>foo\<close>, which is neither tracking nor pagination; the one that drops other
  parameters also drops \<open>page\<close>, so two pages of a listing get one canonical string.
\<close>

theorem normalizeUrl_query_counterexample:
  "normalizeUrl_paginated ''https://example.com/a?foo=1'' = Some ''https://example.com/a?foo=1''
   \<and> normalizeUrl ''https://example.com/list?page=1'' = Some ''https://example.com/list''
   \<and> normalizeUrl ''https://example.com/list?page=2'' = Some ''https://example.com/list''"
  by (simp add: str_defs url_defs norm_defs pag_defs)

section \<open>Idempotence (C8)\<close>

lemma demo_www_www:
  "extractPrimaryDomain ''https://www.www.example.com'' = Some ''www.example.com''"
  "normalizeUrl ''https://www.www.example.com'' = Some ''https://www.example.com/''"
  "\<not> isPrimaryDomain ''https://www.example.com/'' ''www.example.com''"
  by (simp_all add: str_defs url_defs norm_defs)

text \<open>
  C8 at the failing input \<open>https://www.www.example.com/\<close>: both generations strip one
  leading \<open>www.\<close>, so the result still starts with \<open>www.\<close> and normalizing it again
  gives a different string. The crawl itself relies on the second normalization changing
  nothing: started on the domain \<open>www.www.example.com\<close> it compares the primary domain
  of the seed with the primary domain of the normalized seed, finds them different and
  fails the job with \<open>invalid_seed_url\<close>.
\<close>

theorem normalizeUrl_www_www:
  "normalizeUrl ''https://www.www.example.com/'' = Some ''https://www.example.com/''
   \<and> normalizeUrl ''https://www.example.com/'' = Some ''https://example.com/''
   \<and> normalizeUrl_paginated ''https://www.www.example.com/'' = Some ''https://www.example.com/''
   \<and> normalizeUrl_paginated ''https://www.example.com/'' = Some ''https://example.com/''
   \<and> runCrawl demo_world [] (demo_job\<lparr>domain := ''www.www.example.com''\<rparr>)
       = Inl (demo_job\<lparr>domain := ''www.www.example.com'', status := Failed,
                        stop_reason := Some ''invalid_seed_url'',
                        error_message := Some
                          ''Seed URL does not belong to primary domain: https://www.www.example.com''\<rparr>)"
proof -
  have "normalizeUrl ''https://www.www.example.com/'' = Some ''https://www.example.com/''
   \<and> normalizeUrl ''https://www.example.com/'' = Some ''https://example.com/''
   \<and> normalizeUrl_paginated ''https://www.www.example.com/'' = Some ''https://www.example.com/''
   \<and> normalizeUrl_paginated ''https://www.example.com/'' = Some ''https://example.com/''"
    by (simp add: str_defs url_defs norm_defs pag_defs)
  moreover have "runCrawl demo_world [] (demo_job\<lparr>domain := ''www.www.example.com''\<rparr>)
       = Inl (demo_job\<lparr>domain := ''www.www.example.com'', status := Failed,
                        stop_reason := Some ''invalid_seed_url'',
                        error_message := Some
                          ''Seed URL does not belong to primary domain: https://www.www.example.com''\<rparr>)"
    by (simp add: runCrawl_def seedUrl_of_def startsWith_def demo_job_def demo_www_www
          invalid_seed_def updateJobStatus_def)
  ultimately show ?thesis by blast
qed

section \<open>Stop reasons (C6)\<close>

lemma fail_safe_break: "snd (fail_safe acc) \<Longrightarrow> queue (fst (fail_safe acc)) = []"
  by (cases acc) (auto split: if_splits)

lemma after_fetch_break:
  "snd (after_fetch W pd e r s) \<Longrightarrow> queue (fst (after_fetch W pd e r s)) = []"
proof (cases r)
  case (FetchError msg)
  then show "snd (after_fetch W pd e r s) \<Longrightarrow> ?thesis" by simp
next
  case (Fetched u st h)
  then show "snd (after_fetch W pd e r s) \<Longrightarrow> ?thesis"
    by (cases h) (simp_all add: process_html_def fail_safe_break)
qed

lemma visit_break: "snd (visit W pd e s) \<Longrightarrow> queue (fst (visit W pd e s)) = []"
  by (auto simp: visit_def crawl_page_def after_fetch_break split: if_splits)

lemma iteration_break: "snd (iteration W pd s) \<Longrightarrow> queue (fst (iteration W pd s)) = []"
  by (cases "queue s") (simp_all add: visit_break)

lemma crawl_loop_exit:
  "queue (crawl_loop W pd s) = [] \<or> pagesCrawled (crawl_loop W pd s) \<ge> MAX_PAGES"
proof (induction W pd s rule: crawl_loop.induct)
  case (1 W pd s)
  show ?case
  proof (cases "queue s \<noteq> [] \<and> pagesCrawled s < MAX_PAGES")
    case False
    then show ?thesis by (subst crawl_loop.simps, subst crawl_loop.simps) auto
  next
    case True
    note c = True
    show ?thesis
    proof (cases "snd (iteration W pd s)")
      case False
      then show ?thesis using c "1.IH" by (subst crawl_loop.simps, subst crawl_loop.simps) auto
    next
      case True
      then show ?thesis using c iteration_break [OF True]
        by (subst crawl_loop.simps, subst crawl_loop.simps) auto
    qed
  qed
qed

lemma iteration_pagesCrawled_le:
  "queue s \<noteq> [] \<Longrightarrow> pagesCrawled (fst (iteration W pd s)) \<le> pagesCrawled s + 1"
  using visit_progress [of W pd "hd (queue s)" "s\<lparr>queue := tl (queue s)\<rparr>"]
  by (cases "queue s") auto

lemma crawl_loop_bound:
  "pagesCrawled s \<le> MAX_PAGES \<Longrightarrow> pagesCrawled (crawl_loop W pd s) \<le> MAX_PAGES"
proof (induction W pd s rule: crawl_loop.induct)
  case (1 W pd s)
  show ?case
  proof (cases "queue s \<noteq> [] \<and> pagesCrawled s < MAX_PAGES")
    case False
    then show ?thesis using "1.prems" by (subst crawl_loop.simps) auto
  next
    case True
    then have le: "pagesCrawled (fst (iteration W pd s)) \<le> MAX_PAGES"
      using iteration_pagesCrawled_le [of s W pd] by auto
    show ?thesis
    proof (cases "snd (iteration W pd s)")
      case False
      then show ?thesis using True "1.IH" le by (subst crawl_loop.simps) auto
    next
      case True
      then show ?thesis using \<open>queue s \<noteq> [] \<and> pagesCrawled s < MAX_PAGES\<close> le
        by (subst crawl_loop.simps) auto
    qed
  qed
qed

lemma show_nat_MAX_PAGES: "show_nat MAX_PAGES = ''1000''"
  by (simp add: MAX_PAGES_def show_nat.simps digit_char_def)

lemma reconcile_fields:
  "queue (fold reconcile_page ps s) = queue s
   \<and> pagesCrawled (fold reconcile_page ps s) = pagesCrawled s
   \<and> job (fold reconcile_page ps s) = job s
   \<and> incomingLinksMap (fold reconcile_page ps s) = incomingLinksMap s"
  by (induction ps arbitrary: s) auto

text \<open>
  C6. Whatever state the loop starts from, it ends with the crawled count at
  \<open>MAX_PAGES\<close> or with the queue empty (the fail-safe \<open>break\<close> needs an empty
  queue); the count never passes \<open>MAX_PAGES\<close>; the completed job gets the page-limit
  reason exactly when the count has reached \<open>MAX_PAGES\<close>, whether or not the queue is
  empty, and the exhaustion reason otherwise; the two reasons are different strings.
  \<open>runCrawl\<close> runs \<open>finish_crawl\<close> on the loop's result from \<open>initial_state\<close>.
\<close>

theorem crawl_stop_reason:
  "status (job (finish_crawl (crawl_loop W pd s))) = Completed
   \<and> stop_reason (job (finish_crawl (crawl_loop W pd s))) =
       Some (if pagesCrawled (crawl_loop W pd s) \<ge> MAX_PAGES
             then ''MAX_PAGES limit reached (1000)'' else ''Queue exhausted'')
   \<and> (pagesCrawled (crawl_loop W pd s) \<ge> MAX_PAGES \<or> queue (crawl_loop W pd s) = [])
   \<and> ''MAX_PAGES limit reached (1000)'' \<noteq> ''Queue exhausted''
   \<and> pagesCrawled (finish_crawl (crawl_loop W pd s)) = pagesCrawled (crawl_loop W pd s)
   \<and> queue (finish_crawl (crawl_loop W pd s)) = queue (crawl_loop W pd s)
   \<and> (pagesCrawled s \<le> MAX_PAGES \<longrightarrow> pagesCrawled (crawl_loop W pd s) \<le> MAX_PAGES)"
  using crawl_loop_exit [of W pd s] crawl_loop_bound [of s W pd]
  by (auto simp: finish_crawl_def updateJobStatus_def completed_metadata_def stopReason_def
        show_nat_MAX_PAGES reconcile_def reconcile_fields)


lemma demo_near_limit_run:
  "pagesCrawled (crawl_loop demo_world ''example.com'' demo_near_limit) = 1000
   \<and> map normalized_url (queue (crawl_loop demo_world ''example.com'' demo_near_limit))
       = [''https://example.com/about'']"
  by (simp add: crawl_loop.simps demo_defs demo_urls crawl_defs)

theorem crawl_stop_reason_witness:
  "pagesCrawled demo_near_limit \<le> MAX_PAGES
   \<and> pagesCrawled (crawl_loop demo_world ''example.com'' demo_near_limit) = MAX_PAGES
   \<and> queue (crawl_loop demo_world ''example.com'' demo_near_limit) \<noteq> []
   \<and> status (job (finish_crawl (crawl_loop demo_world ''example.com'' demo_near_limit))) = Completed
   \<and> stop_reason (job (finish_crawl (crawl_loop demo_world ''example.com'' demo_near_limit)))
       = Some ''MAX_PAGES limit reached (1000)''"
proof -
  have le: "pagesCrawled demo_near_limit \<le> MAX_PAGES"
    by (simp add: demo_defs crawl_defs)
  have q: "queue (crawl_loop demo_world ''example.com'' demo_near_limit) \<noteq> []"
    using demo_near_limit_run by auto
  show ?thesis
    using crawl_stop_reason [of demo_world "''example.com''" demo_near_limit]
      demo_near_limit_run le q
    by (simp add: MAX_PAGES_def)
qed

section \<open>The frontier (C7)\<close>

lemma track_link_frontier:
  "queue (fst (track_link pd u n l acc)) = queue (fst acc)
   \<and> seenUrls (fst (track_link pd u n l acc)) = seenUrls (fst acc)
   \<and> pagesMap (fst (track_link pd u n l acc)) = pagesMap (fst acc)"
  by (cases acc; cases "normalizeAndClassifyUrl l u pd"; cases "fst (normalizeAndClassifyUrl l u pd)")
     (auto simp: track_link_def)

lemma fold_track_link_frontier:
  "queue (fst (fold (track_link pd u n) links acc)) = queue (fst acc)
   \<and> seenUrls (fst (fold (track_link pd u n) links acc)) = seenUrls (fst acc)
   \<and> pagesMap (fst (fold (track_link pd u n) links acc)) = pagesMap (fst acc)"
  by (induction links arbitrary: acc) (simp_all add: track_link_frontier)

lemma enqueue_classified_step:
  "queue (fst (enqueue_classified pd d r c (s, a, b, k))) = queue s
     \<and> seenUrls (fst (enqueue_classified pd d r c (s, a, b, k))) = seenUrls s
   \<or> (\<exists>nl. fst c = Some nl \<and> \<not> snd c \<and> isPrimaryDomain nl pd
         \<and> nl \<notin> set (seenUrls s) \<and> nl \<notin> fst ` set (pagesMap s) \<and> d < MAX_DEPTH
         \<and> queue (fst (enqueue_classified pd d r c (s, a, b, k)))
             = queue s @ [\<lparr>normalized_url = nl, original_url = r, depth = d + 1\<rparr>]
         \<and> seenUrls (fst (enqueue_classified pd d r c (s, a, b, k))) = seenUrls s @ [nl])"
  by (cases c; cases "fst c") (auto simp: set_add_def)

lemma enqueue_link_step:
  "queue (fst (enqueue_link pd u d l (s, a, b, k))) = queue s
     \<and> seenUrls (fst (enqueue_link pd u d l (s, a, b, k))) = seenUrls s
   \<or> (\<exists>nl r. resolveUrl l u = Some r
         \<and> normalizeAndClassifyUrl l u pd = (Some nl, False) \<and> isPrimaryDomain nl pd
         \<and> nl \<notin> set (seenUrls s) \<and> nl \<notin> fst ` set (pagesMap s) \<and> d < MAX_DEPTH
         \<and> queue (fst (enqueue_link pd u d l (s, a, b, k)))
             = queue s @ [\<lparr>normalized_url = nl, original_url = r, depth = d + 1\<rparr>]
         \<and> seenUrls (fst (enqueue_link pd u d l (s, a, b, k))) = seenUrls s @ [nl])"
proof (cases "shouldSkipUrl l \<noteq> None \<or> resolveUrl l u = None")
  case True
  then show ?thesis by (auto simp: enqueue_link_def)
next
  case False
  then obtain r where r: "resolveUrl l u = Some r" and sk: "shouldSkipUrl l = None" by auto
  show ?thesis
    using enqueue_classified_step [of pd d r "normalizeAndClassifyUrl l u pd" s a b k]
    by (cases "normalizeAndClassifyUrl l u pd") (auto simp: enqueue_link_def r sk)
qed

lemma enqueue_link_inv:
  "frontier_inv (fst acc) \<Longrightarrow> frontier_inv (fst (enqueue_link pd u d l acc))"
proof -
  assume inv: "frontier_inv (fst acc)"
  obtain s a b k where acc: "acc = (s, a, b, k)" by (cases acc)
  from enqueue_link_step [of pd u d l s a b k]
  consider (same) "queue (fst (enqueue_link pd u d l (s, a, b, k))) = queue s"
      "seenUrls (fst (enqueue_link pd u d l (s, a, b, k))) = seenUrls s"
    | (push) nl r where "nl \<notin> set (seenUrls s)"
      "queue (fst (enqueue_link pd u d l (s, a, b, k)))
         = queue s @ [\<lparr>normalized_url = nl, original_url = r, depth = d + 1\<rparr>]"
      "seenUrls (fst (enqueue_link pd u d l (s, a, b, k))) = seenUrls s @ [nl]"
    by blast
  then show ?thesis
  proof cases
    case same
    then show ?thesis using inv by (simp add: acc frontier_inv_def)
  next
    case push
    have "nl \<notin> normalized_url ` set (queue s)"
      using inv push(1) by (auto simp: acc frontier_inv_def)
    then show ?thesis
      using inv push by (auto simp: acc frontier_inv_def)
  qed
qed

lemma fold_enqueue_link_inv:
  "frontier_inv (fst acc) \<Longrightarrow> frontier_inv (fst (fold (enqueue_link pd u d) links acc))"
  by (induction links arbitrary: acc) (simp_all add: enqueue_link_inv)

lemma fail_safe_frontier:
  "queue (fst (fail_safe acc)) = queue (fst acc) \<and> seenUrls (fst (fail_safe acc)) = seenUrls (fst acc)"
  by (cases acc) auto

lemma store_tracked_frontier:
  "queue (store_tracked W pd e u st doc acc) = queue (fst acc)
   \<and> seenUrls (store_tracked W pd e u st doc acc) = seenUrls (fst acc)"
  by (cases acc) (auto simp: store_page_def)

lemma process_html_inv:
  "frontier_inv s \<Longrightarrow> frontier_inv (fst (process_html W pd e u st doc s))"
proof -
  assume inv: "frontier_inv s"
  let ?t = "fold (track_link pd u (normalized_url e)) (doc_links doc)
              (s\<lparr>originalUrlsMap := AList.update (normalized_url e) u (originalUrlsMap s),
                 totalUrlsDiscovered := totalUrlsDiscovered s + length (doc_links doc)\<rparr>, 0, 0)"
  let ?st = "store_tracked W pd e u st doc ?t"
  have "frontier_inv ?st"
    using inv by (simp add: frontier_inv_def store_tracked_frontier fold_track_link_frontier)
  then have "frontier_inv (fst (fold (enqueue_link pd u (depth e)) (doc_links doc) (?st, 0, 0, 0)))"
    using fold_enqueue_link_inv [of "(?st, 0, 0, 0)"] by simp
  then show ?thesis
    by (simp add: process_html_def frontier_inv_def fail_safe_frontier)
qed

lemma crawl_page_inv:
  "frontier_inv s \<Longrightarrow> frontier_inv (fst (crawl_page W pd e a s))"
proof -
  assume inv: "frontier_inv s"
  then have inv': "frontier_inv (s\<lparr>job := updateJobStatus Running (progress_metadata s) (job s)\<rparr>)"
    by (simp add: frontier_inv_def)
  show ?thesis
  proof (cases "fetchPage W a")
    case (FetchError msg)
    then show ?thesis using inv' by (simp add: crawl_page_def)
  next
    case (Fetched u st h)
    then show ?thesis using inv' by (cases h) (simp_all add: crawl_page_def process_html_inv)
  qed
qed

lemma visit_inv: "frontier_inv s \<Longrightarrow> frontier_inv (fst (visit W pd e s))"
proof -
  assume inv: "frontier_inv s"
  then have "frontier_inv (s\<lparr>pagesCrawled := pagesCrawled s + 1,
                maxDepthReached := max (depth e) (maxDepthReached s)\<rparr>)"
    by (simp add: frontier_inv_def)
  then show ?thesis
    using inv crawl_page_inv by (auto simp: visit_def frontier_inv_def)
qed

lemma iteration_inv: "frontier_inv s \<Longrightarrow> frontier_inv (fst (iteration W pd s))"
proof (cases "queue s")
  case Nil
  then show "frontier_inv s \<Longrightarrow> ?thesis" by simp
next
  case (Cons e rest)
  assume "frontier_inv s"
  then have "frontier_inv (s\<lparr>queue := rest\<rparr>)" using Cons by (auto simp: frontier_inv_def)
  then show ?thesis using Cons by (simp add: visit_inv)
qed

lemma crawl_states_inv:
  "frontier_inv s \<Longrightarrow> \<forall>s' \<in> set (crawl_states W pd s). frontier_inv s'"
proof (induction W pd s rule: crawl_states.induct)
  case (1 W pd s)
  show ?case
  proof (cases "queue s \<noteq> [] \<and> pagesCrawled s < MAX_PAGES")
    case False
    then show ?thesis using "1.prems" by (subst crawl_states.simps) auto
  next
    case True
    note c = True
    show ?thesis
    proof (cases "snd (iteration W pd s)")
      case True
      then show ?thesis using c "1.prems" iteration_inv [of s W pd]
        by (subst crawl_states.simps) auto
    next
      case False
      then show ?thesis using c "1.prems" "1.IH" iteration_inv [of s W pd]
        by (subst crawl_states.simps) auto
    qed
  qed
qed

lemma load_page_frontier:
  "queue (fold (load_page pd) rows s) = queue s"
  by (induction rows arbitrary: s) (auto simp: load_page_def)

lemma initial_state_inv:
  "frontier_inv (initial_state rows j pd seedUrl seedN)"
  by (simp add: frontier_inv_def initial_state_def mark_seed_def load_page_frontier
        fresh_state_def set_add_def)

text \<open>
  C7. In every state the loop goes through, from the initial state of any job on, the
  normalized URLs of the queue are pairwise different and all in the seen-set. One run of
  the enqueueing loop body either leaves queue and seen-set as they are, or appends one
  entry at depth + 1 for an in-scope link whose normalized URL was neither seen nor
  crawled, at a depth below \<open>MAX_DEPTH\<close>, and adds that URL to the seen-set in the same
  step.
\<close>

theorem frontier_never_holds_duplicates:
  "(\<forall>s \<in> set (crawl_states W pd (initial_state rows j pd seedUrl seedN)).
      distinct (map normalized_url (queue s)) \<and> set (map normalized_url (queue s)) \<subseteq> set (seenUrls s))
   \<and> (queue (fst (enqueue_link pd u d l (s, a, b, k))) = queue s
        \<and> seenUrls (fst (enqueue_link pd u d l (s, a, b, k))) = seenUrls s
      \<or> (\<exists>nl r. resolveUrl l u = Some r
            \<and> normalizeAndClassifyUrl l u pd = (Some nl, False) \<and> isPrimaryDomain nl pd
            \<and> nl \<notin> set (seenUrls s) \<and> nl \<notin> fst ` set (pagesMap s) \<and> d < MAX_DEPTH
            \<and> queue (fst (enqueue_link pd u d l (s, a, b, k)))
                = queue s @ [\<lparr>normalized_url = nl, original_url = r, depth = d + 1\<rparr>]
            \<and> seenUrls (fst (enqueue_link pd u d l (s, a, b, k))) = seenUrls s @ [nl]))"
proof (rule conjI)
  show "\<forall>s \<in> set (crawl_states W pd (initial_state rows j pd seedUrl seedN)).
      distinct (map normalized_url (queue s)) \<and> set (map normalized_url (queue s)) \<subseteq> set (seenUrls s)"
    using crawl_states_inv [OF initial_state_inv [of rows j pd seedUrl seedN], of W pd]
    unfolding frontier_inv_def .
  show "queue (fst (enqueue_link pd u d l (s, a, b, k))) = queue s
        \<and> seenUrls (fst (enqueue_link pd u d l (s, a, b, k))) = seenUrls s
      \<or> (\<exists>nl r. resolveUrl l u = Some r
            \<and> normalizeAndClassifyUrl l u pd = (Some nl, False) \<and> isPrimaryDomain nl pd
            \<and> nl \<notin> set (seenUrls s) \<and> nl \<notin> fst ` set (pagesMap s) \<and> d < MAX_DEPTH
            \<and> queue (fst (enqueue_link pd u d l (s, a, b, k)))
                = queue s @ [\<lparr>normalized_url = nl, original_url = r, depth = d + 1\<rparr>]
            \<and> seenUrls (fst (enqueue_link pd u d l (s, a, b, k))) = seenUrls s @ [nl])"
    by (rule enqueue_link_step)
qed


lemma crawl_states_second:
  assumes "queue s \<noteq> []" and "pagesCrawled s < MAX_PAGES"
  shows "fst (iteration W pd s) \<in> set (crawl_states W pd s)"
proof (cases "snd (iteration W pd s)")
  case True
  then show ?thesis using assms by (subst crawl_states.simps) simp
next
  case False
  have "fst (iteration W pd s) \<in> set (crawl_states W pd (fst (iteration W pd s)))"
    by (subst crawl_states.simps) simp
  then show ?thesis using assms False by (subst crawl_states.simps) simp
qed

lemma demo_first_iteration:
  "map normalized_url (queue (fst (iteration demo_world ''example.com'' demo_start)))
     = [''https://example.com/about'']
   \<and> seenUrls (fst (iteration demo_world ''example.com'' demo_start))
       = [''https://example.com/'', ''https://example.com/about'']"
  by (simp add: demo_defs demo_urls crawl_defs)

theorem frontier_never_holds_duplicates_witness:
  "fst (iteration demo_world ''example.com'' demo_start)
     \<in> set (crawl_states demo_world ''example.com'' demo_start)
   \<and> map normalized_url (queue (fst (iteration demo_world ''example.com'' demo_start)))
       = [''https://example.com/about'']
   \<and> distinct (map normalized_url (queue (fst (iteration demo_world ''example.com'' demo_start))))
   \<and> set (map normalized_url (queue (fst (iteration demo_world ''example.com'' demo_start))))
       \<subseteq> set (seenUrls (fst (iteration demo_world ''example.com'' demo_start)))"
proof -
  have mem: "fst (iteration demo_world ''example.com'' demo_start)
               \<in> set (crawl_states demo_world ''example.com'' demo_start)"
    by (rule crawl_states_second) (simp_all add: demo_defs crawl_defs)
  have all: "\<forall>s \<in> set (crawl_states demo_world ''example.com'' demo_start).
               distinct (map normalized_url (queue s))
               \<and> set (map normalized_url (queue s)) \<subseteq> set (seenUrls s)"
    using frontier_never_holds_duplicates
            [of demo_world "''example.com''" "[]" demo_job "''https://example.com''"
                "''https://example.com/''"]
    unfolding demo_start_def by (rule conjunct1)
  show ?thesis
    using mem all demo_first_iteration by blast
qed

section \<open>Incoming link counts (C2)\<close>

lemma incoming_get_add:
  "incoming_get (incoming_add nl inc) t =
     (if t = nl then (fst (incoming_get inc nl) + 1, snd (incoming_get inc nl))
      else incoming_get inc t)"
  by (auto simp: incoming_get_def incoming_add_def update_conv' split: option.splits)

lemma track_link_incoming:
  "incoming_get (incomingLinksMap (fst (track_link pd u n l acc))) t =
     (fst (incoming_get (incomingLinksMap (fst acc)) t) + count_list (link_target pd u n l) t,
      snd (incoming_get (incomingLinksMap (fst acc)) t))"
proof (cases "shouldSkipUrl l \<noteq> None \<or> resolveUrl l u = None")
  case True
  then show ?thesis by (auto simp: track_link_def link_target_def)
next
  case False
  obtain nl ext where c: "normalizeAndClassifyUrl l u pd = (nl, ext)"
    by (cases "normalizeAndClassifyUrl l u pd")
  obtain s a b where acc: "acc = (s, a, b)" by (cases acc)
  show ?thesis
    using False
    by (cases nl; cases ext)
       (auto simp: track_link_def link_target_def c acc incoming_get_add)
qed

lemma fold_track_link_incoming:
  "incoming_get (incomingLinksMap (fst (fold (track_link pd u n) links acc))) t =
     (fst (incoming_get (incomingLinksMap (fst acc)) t) + count_list (page_targets pd u n links) t,
      snd (incoming_get (incomingLinksMap (fst acc)) t))"
proof (induction links arbitrary: acc)
  case Nil
  then show ?case by (simp add: page_targets_def)
next
  case (Cons l links)
  show ?case
    using Cons.IH [of "track_link pd u n l acc"]
    by (simp add: track_link_incoming page_targets_def)
qed

lemma enqueue_link_incoming:
  "incomingLinksMap (fst (enqueue_link pd u d l acc)) = incomingLinksMap (fst acc)
   \<and> job (fst (enqueue_link pd u d l acc)) = job (fst acc)"
  by (cases acc; cases "normalizeAndClassifyUrl l u pd"; cases "fst (normalizeAndClassifyUrl l u pd)")
     (auto simp: enqueue_link_def split: option.splits)

lemma fold_enqueue_link_incoming:
  "incomingLinksMap (fst (fold (enqueue_link pd u d) links acc)) = incomingLinksMap (fst acc)
   \<and> job (fst (fold (enqueue_link pd u d) links acc)) = job (fst acc)"
  by (induction links arbitrary: acc) (simp_all add: enqueue_link_incoming)

lemma track_link_job: "job (fst (track_link pd u n l acc)) = job (fst acc)"
  by (cases acc; cases "normalizeAndClassifyUrl l u pd"; cases "fst (normalizeAndClassifyUrl l u pd)")
     (auto simp: track_link_def)

lemma fold_track_link_job: "job (fst (fold (track_link pd u n) links acc)) = job (fst acc)"
  by (induction links arbitrary: acc) (simp_all add: track_link_job)

lemma fail_safe_incoming:
  "incomingLinksMap (fst (fail_safe acc)) = incomingLinksMap (fst acc)
   \<and> job (fst (fail_safe acc)) = job (fst acc)"
  by (cases acc) auto

lemma store_tracked_incoming:
  "incomingLinksMap (store_tracked W pd e u st doc acc) = incomingLinksMap (fst acc)
   \<and> job (store_tracked W pd e u st doc acc) = job (fst acc)"
  by (cases acc) (auto simp: store_page_def)

lemma process_html_incoming:
  "incoming_get (incomingLinksMap (fst (process_html W pd e u st doc s))) t =
     (fst (incoming_get (incomingLinksMap s) t)
        + count_list (page_targets pd u (normalized_url e) (doc_links doc)) t,
      snd (incoming_get (incomingLinksMap s) t))"
  by (simp add: process_html_def fail_safe_incoming fold_enqueue_link_incoming
        store_tracked_incoming fold_track_link_incoming)

lemma process_html_job: "job (fst (process_html W pd e u st doc s)) = job s"
  by (simp add: process_html_def fail_safe_incoming fold_enqueue_link_incoming
        store_tracked_incoming fold_track_link_job)

lemma count_list_map_Pair: "count_list (map snd (map (Pair n) xs)) t = count_list xs t"
  by (induction xs) auto

lemma after_fetch_incoming:
  "incoming_get (incomingLinksMap (fst (after_fetch W pd e r s))) t =
     (fst (incoming_get (incomingLinksMap s) t)
        + count_list (map snd (fetched_edges pd (normalized_url e) r)) t,
      snd (incoming_get (incomingLinksMap s) t))"
proof (cases r)
  case (FetchError msg)
  then show ?thesis by simp
next
  case (Fetched u st h)
  then show ?thesis
    by (cases h) (simp_all add: process_html_incoming count_list_map_Pair del: map_map)
qed

lemma after_fetch_job_id: "job_id (job (fst (after_fetch W pd e r s))) = job_id (job s)"
proof (cases r)
  case (FetchError msg)
  then show ?thesis by simp
next
  case (Fetched u st h)
  then show ?thesis by (cases h) (simp_all add: process_html_job)
qed

lemma visit_incoming:
  "incoming_get (incomingLinksMap (fst (visit W pd e s))) t =
     (fst (incoming_get (incomingLinksMap s) t) + count_list (map snd (visit_edges W pd e s)) t,
      snd (incoming_get (incomingLinksMap s) t))"
  by (simp add: visit_def visit_edges_def crawl_page_def after_fetch_incoming absoluteUrl_of_def)

lemma visit_job_id: "job_id (job (fst (visit W pd e s))) = job_id (job s)"
  by (simp add: visit_def crawl_page_def after_fetch_job_id updateJobStatus_def
        progress_metadata_def)

lemma iteration_incoming:
  "incoming_get (incomingLinksMap (fst (iteration W pd s))) t =
     (fst (incoming_get (incomingLinksMap s) t) + count_list (map snd (iteration_edges W pd s)) t,
      snd (incoming_get (incomingLinksMap s) t))"
  by (cases "queue s") (simp_all add: visit_incoming visit_edges_def absoluteUrl_of_def)

lemma iteration_job_id: "job_id (job (fst (iteration W pd s))) = job_id (job s)"
  by (cases "queue s") (simp_all add: visit_job_id)

lemma crawl_loop_stop:
  "\<not> (queue s \<noteq> [] \<and> pagesCrawled s < MAX_PAGES) \<Longrightarrow> crawl_loop W pd s = s"
  by (subst crawl_loop.simps) (auto simp del: iteration.simps)

lemma crawl_loop_break:
  "queue s \<noteq> [] \<Longrightarrow> pagesCrawled s < MAX_PAGES \<Longrightarrow> snd (iteration W pd s)
   \<Longrightarrow> crawl_loop W pd s = fst (iteration W pd s)"
  by (subst crawl_loop.simps) (simp del: iteration.simps)

lemma crawl_loop_step:
  "queue s \<noteq> [] \<Longrightarrow> pagesCrawled s < MAX_PAGES \<Longrightarrow> \<not> snd (iteration W pd s)
   \<Longrightarrow> crawl_loop W pd s = crawl_loop W pd (fst (iteration W pd s))"
  by (subst crawl_loop.simps) (simp del: iteration.simps)

lemma crawl_edges_stop:
  "\<not> (queue s \<noteq> [] \<and> pagesCrawled s < MAX_PAGES) \<Longrightarrow> crawl_edges W pd s = []"
  by (subst crawl_edges.simps) (auto simp del: iteration.simps iteration_edges.simps)

lemma crawl_edges_break:
  "queue s \<noteq> [] \<Longrightarrow> pagesCrawled s < MAX_PAGES \<Longrightarrow> snd (iteration W pd s)
   \<Longrightarrow> crawl_edges W pd s = iteration_edges W pd s"
  by (subst crawl_edges.simps) (simp del: iteration.simps iteration_edges.simps)

lemma crawl_edges_step:
  "queue s \<noteq> [] \<Longrightarrow> pagesCrawled s < MAX_PAGES \<Longrightarrow> \<not> snd (iteration W pd s)
   \<Longrightarrow> crawl_edges W pd s
        = iteration_edges W pd s @ crawl_edges W pd (fst (iteration W pd s))"
  by (subst crawl_edges.simps) (simp del: iteration.simps iteration_edges.simps)

lemma crawl_loop_incoming:
  "incoming_get (incomingLinksMap (crawl_loop W pd s)) t =
     (fst (incoming_get (incomingLinksMap s) t) + count_list (map snd (crawl_edges W pd s)) t,
      snd (incoming_get (incomingLinksMap s) t))
   \<and> job_id (job (crawl_loop W pd s)) = job_id (job s)"
proof (induction W pd s rule: crawl_loop.induct)
  case (1 W pd s)
  show ?case
  proof (cases "queue s \<noteq> [] \<and> pagesCrawled s < MAX_PAGES")
    case False
    then show ?thesis
      by (simp add: crawl_loop_stop [OF False] crawl_edges_stop [OF False])
  next
    case True
    then have q: "queue s \<noteq> []" and p: "pagesCrawled s < MAX_PAGES" by auto
    show ?thesis
    proof (cases "snd (iteration W pd s)")
      case True
      show ?thesis
        by (simp add: crawl_loop_break [OF q p True] crawl_edges_break [OF q p True]
              iteration_incoming iteration_job_id del: iteration.simps iteration_edges.simps)
    next
      case False
      have IH: "incoming_get (incomingLinksMap (crawl_loop W pd (fst (iteration W pd s)))) t =
          (fst (incoming_get (incomingLinksMap (fst (iteration W pd s))) t)
             + count_list (map snd (crawl_edges W pd (fst (iteration W pd s)))) t,
           snd (incoming_get (incomingLinksMap (fst (iteration W pd s))) t))
        \<and> job_id (job (crawl_loop W pd (fst (iteration W pd s))))
            = job_id (job (fst (iteration W pd s)))"
        using "1.IH" q p False by blast
      show ?thesis
        by (simp add: crawl_loop_step [OF q p False] crawl_edges_step [OF q p False] IH
              iteration_incoming iteration_job_id del: iteration.simps iteration_edges.simps)
    qed
  qed
qed

lemma load_page_incoming:
  "incomingLinksMap (fold (load_page pd) rows s) = incomingLinksMap s
   \<and> job (fold (load_page pd) rows s) = job s
   \<and> pages_table (fold (load_page pd) rows s) = pages_table s"
  by (induction rows arbitrary: s) (auto simp: load_page_def)

lemma initial_state_fields:
  "incomingLinksMap (initial_state rows j pd seedUrl seedN) = []"
  "job (initial_state rows j pd seedUrl seedN) = j"
  "pages_table (initial_state rows j pd seedUrl seedN) = rows"
  by (simp_all add: initial_state_def mark_seed_def load_page_incoming fresh_state_def)

lemma update_page_rows_reconciled:
  assumes "\<forall>r \<in> set rows. row_reconciled jobId inc D r"
  shows "\<forall>r \<in> set (update_page_rows jobId n (with_incoming (incoming_get inc n) page) rows).
           row_reconciled jobId inc (insert n D) r"
proof
  fix r'
  assume "r' \<in> set (update_page_rows jobId n (with_incoming (incoming_get inc n) page) rows)"
  then obtain r where r: "r \<in> set rows"
    and r': "r' = (if crawl_job_id r = jobId \<and> normalized_url r = n
              then r\<lparr>internal_links_out := internal_links_out (with_incoming (incoming_get inc n) page),
                     external_links_out := external_links_out (with_incoming (incoming_get inc n) page),
                     internal_links_in := internal_links_in (with_incoming (incoming_get inc n) page),
                     external_links_in := external_links_in (with_incoming (incoming_get inc n) page)\<rparr>
              else r)"
    unfolding update_page_rows_def by auto
  have old: "row_reconciled jobId inc D r" using assms r by blast
  show "row_reconciled jobId inc (insert n D) r'"
  proof (cases "crawl_job_id r = jobId \<and> normalized_url r = n")
    case True
    then show ?thesis unfolding r' by (simp add: row_reconciled_def with_incoming_def)
  next
    case False
    then show ?thesis using old unfolding r' by (auto simp: row_reconciled_def)
  qed
qed

lemma fold_reconcile_page:
  assumes "\<forall>r \<in> set (pages_table s). row_reconciled (job_id (job s)) (incomingLinksMap s) D r"
  shows "\<forall>r \<in> set (pages_table (fold reconcile_page ps s)).
           row_reconciled (job_id (job s)) (incomingLinksMap s) (D \<union> fst ` set ps) r"
  using assms
proof (induction ps arbitrary: s D)
  case Nil
  then show ?case by simp
next
  case (Cons p ps)
  obtain n page where p: "p = (n, page)" by (cases p)
  define s' where "s' = reconcile_page (n, page) s"
  have f: "job s' = job s" "incomingLinksMap s' = incomingLinksMap s"
    and pt: "pages_table s' = update_page_rows (job_id (job s)) n
               (with_incoming (incoming_get (incomingLinksMap s) n) page) (pages_table s)"
    by (simp_all add: s'_def)
  have step: "\<forall>r \<in> set (pages_table s').
          row_reconciled (job_id (job s')) (incomingLinksMap s') (insert n D) r"
    unfolding pt f by (rule update_page_rows_reconciled [OF Cons.prems])
  have "\<forall>r \<in> set (pages_table (fold reconcile_page ps s')).
          row_reconciled (job_id (job s')) (incomingLinksMap s') (insert n D \<union> fst ` set ps) r"
    by (rule Cons.IH [OF step])
  moreover have "insert n D \<union> fst ` set ps = D \<union> fst ` set (p # ps)"
    by (auto simp: p)
  moreover have "fold reconcile_page (p # ps) s = fold reconcile_page ps s'"
    by (simp add: p s'_def del: reconcile_page.simps)
  ultimately show ?case
    by (simp only: f)
qed

lemma reconcile_keys:
  "fst ` set (pagesMap (fold reconcile_page ps s)) = fst ` set (pagesMap s) \<union> fst ` set ps"
proof (induction ps arbitrary: s)
  case Nil
  then show ?case by simp
next
  case (Cons p ps)
  obtain n page where p: "p = (n, page)" by (cases p)
  have "fst ` set (pagesMap (reconcile_page (n, page) s)) = insert n (fst ` set (pagesMap s))"
    by (simp add: dom_update)
  then show ?case
    unfolding p by (simp add: Cons.IH del: reconcile_page.simps)
qed

lemma rows_in_map_same:
  "pages_table s' = pages_table s \<Longrightarrow> pagesMap s' = pagesMap s \<Longrightarrow> job s' = job s
   \<Longrightarrow> rows_in_map s' = rows_in_map s"
  by (simp add: rows_in_map_def)

lemma track_link_tables:
  "pages_table (fst (track_link pd u n l acc)) = pages_table (fst acc)
   \<and> pagesMap (fst (track_link pd u n l acc)) = pagesMap (fst acc)"
  by (cases acc; cases "normalizeAndClassifyUrl l u pd"; cases "fst (normalizeAndClassifyUrl l u pd)")
     (auto simp: track_link_def)

lemma fold_track_link_tables:
  "pages_table (fst (fold (track_link pd u n) links acc)) = pages_table (fst acc)
   \<and> pagesMap (fst (fold (track_link pd u n) links acc)) = pagesMap (fst acc)"
  by (induction links arbitrary: acc) (simp_all add: track_link_tables)

lemma enqueue_link_tables:
  "pages_table (fst (enqueue_link pd u d l acc)) = pages_table (fst acc)
   \<and> pagesMap (fst (enqueue_link pd u d l acc)) = pagesMap (fst acc)"
  by (cases acc; cases "normalizeAndClassifyUrl l u pd"; cases "fst (normalizeAndClassifyUrl l u pd)")
     (auto simp: enqueue_link_def split: option.splits)

lemma fold_enqueue_link_tables:
  "pages_table (fst (fold (enqueue_link pd u d) links acc)) = pages_table (fst acc)
   \<and> pagesMap (fst (fold (enqueue_link pd u d) links acc)) = pagesMap (fst acc)"
  by (induction links arbitrary: acc) (simp_all add: enqueue_link_tables)

lemma fail_safe_tables:
  "pages_table (fst (fail_safe acc)) = pages_table (fst acc)
   \<and> pagesMap (fst (fail_safe acc)) = pagesMap (fst acc)"
  by (cases acc) auto

lemma store_tracked_rows:
  assumes "rows_in_map (fst acc)"
  shows "rows_in_map (store_tracked W pd e u st doc acc)"
proof -
  obtain s a b where acc: "acc = (s, a, b)" by (cases acc)
  show ?thesis
    using assms unfolding acc
    by (auto simp: rows_in_map_def store_page_def dom_update pageRow_def pageObject_def
          Page.extend_def PageRow.fields_def)
qed

lemma process_html_rows:
  assumes "rows_in_map s"
  shows "rows_in_map (fst (process_html W pd e u st doc s))"
proof -
  let ?s0 = "s\<lparr>originalUrlsMap := AList.update (normalized_url e) u (originalUrlsMap s),
                totalUrlsDiscovered := totalUrlsDiscovered s + length (doc_links doc)\<rparr>"
  let ?t = "fold (track_link pd u (normalized_url e)) (doc_links doc) (?s0, 0, 0)"
  let ?st = "store_tracked W pd e u st doc ?t"
  let ?q = "fold (enqueue_link pd u (depth e)) (doc_links doc) (?st, 0, 0, 0)"
  have "rows_in_map ?s0" using assms by (simp add: rows_in_map_def)
  then have "rows_in_map (fst ?t)"
    using rows_in_map_same [of "fst ?t" ?s0] fold_track_link_tables [of pd u "normalized_url e" "doc_links doc" "(?s0, 0, 0)"]
      fold_track_link_job [of pd u "normalized_url e" "doc_links doc" "(?s0, 0, 0)"]
    by simp
  then have st: "rows_in_map ?st" by (rule store_tracked_rows)
  have "rows_in_map (fst ?q)"
    using rows_in_map_same [of "fst ?q" ?st] st
      fold_enqueue_link_tables [of pd u "depth e" "doc_links doc" "(?st, 0, 0, 0)"]
      fold_enqueue_link_incoming [of pd u "depth e" "doc_links doc" "(?st, 0, 0, 0)"]
    by simp
  then have "rows_in_map (fst (fail_safe ?q))"
    using rows_in_map_same [of "fst (fail_safe ?q)" "fst ?q"] fail_safe_tables [of ?q]
      fail_safe_incoming [of ?q]
    by simp
  then show ?thesis by (simp add: process_html_def)
qed

lemma after_fetch_rows:
  "rows_in_map s \<Longrightarrow> rows_in_map (fst (after_fetch W pd e r s))"
proof (cases r)
  case (FetchError msg)
  then show "rows_in_map s \<Longrightarrow> ?thesis" by simp
next
  case (Fetched u st h)
  then show "rows_in_map s \<Longrightarrow> ?thesis" by (cases h) (simp_all add: process_html_rows)
qed

lemma visit_rows: "rows_in_map s \<Longrightarrow> rows_in_map (fst (visit W pd e s))"
proof -
  assume a: "rows_in_map s"
  have b: "rows_in_map (s\<lparr>pagesCrawled := pagesCrawled s + 1,
                maxDepthReached := max (depth e) (maxDepthReached s),
                job := updateJobStatus Running
                  (progress_metadata (s\<lparr>pagesCrawled := pagesCrawled s + 1,
                     maxDepthReached := max (depth e) (maxDepthReached s)\<rparr>)) (job s)\<rparr>)"
    using a by (simp add: rows_in_map_def updateJobStatus_def progress_metadata_def)
  have c: "rows_in_map (s\<lparr>totalDuplicatesSkipped := totalDuplicatesSkipped s + 1\<rparr>)"
    using a by (simp add: rows_in_map_def)
  show ?thesis
    using a c after_fetch_rows [OF b] by (simp add: visit_def crawl_page_def)
qed

lemma iteration_rows: "rows_in_map s \<Longrightarrow> rows_in_map (fst (iteration W pd s))"
proof (cases "queue s")
  case Nil
  then show "rows_in_map s \<Longrightarrow> ?thesis" by simp
next
  case (Cons e rest)
  assume "rows_in_map s"
  then have "rows_in_map (s\<lparr>queue := rest\<rparr>)" by (simp add: rows_in_map_def)
  then show ?thesis using Cons by (simp add: visit_rows)
qed

lemma crawl_loop_rows: "rows_in_map s \<Longrightarrow> rows_in_map (crawl_loop W pd s)"
proof (induction W pd s rule: crawl_loop.induct)
  case (1 W pd s)
  show ?case
  proof (cases "queue s \<noteq> [] \<and> pagesCrawled s < MAX_PAGES")
    case False
    then show ?thesis using "1.prems" by (simp add: crawl_loop_stop [OF False])
  next
    case True
    then have q: "queue s \<noteq> []" and p: "pagesCrawled s < MAX_PAGES" by auto
    have it: "rows_in_map (fst (iteration W pd s))" using "1.prems" by (rule iteration_rows)
    show ?thesis
    proof (cases "snd (iteration W pd s)")
      case True
      show ?thesis using it by (simp add: crawl_loop_break [OF q p True] del: iteration.simps)
    next
      case False
      have "rows_in_map (crawl_loop W pd (fst (iteration W pd s)))"
        using "1.IH" q p False it by blast
      then show ?thesis by (simp add: crawl_loop_step [OF q p False] del: iteration.simps)
    qed
  qed
qed

lemma initial_state_rows:
  assumes "filter (\<lambda>r. crawl_job_id r = job_id j) rows = []"
  shows "rows_in_map (initial_state rows j pd seedUrl seedN)"
  using assms by (auto simp: rows_in_map_def initial_state_fields filter_empty_conv)

lemma update_page_rows_keys:
  "map (\<lambda>r. (crawl_job_id r, normalized_url r)) (update_page_rows jobId n page rows)
     = map (\<lambda>r. (crawl_job_id r, normalized_url r)) rows"
  by (induction rows) (auto simp: update_page_rows_def)

lemma fold_reconcile_page_keys:
  "map (\<lambda>r. (crawl_job_id r, normalized_url r)) (pages_table (fold reconcile_page ps s))
     = map (\<lambda>r. (crawl_job_id r, normalized_url r)) (pages_table s)"
proof (induction ps arbitrary: s)
  case Nil
  then show ?case by simp
next
  case (Cons p ps)
  obtain n page where p: "p = (n, page)" by (cases p)
  show ?case
    unfolding p by (simp add: Cons.IH update_page_rows_keys del: reconcile_page.simps)
      (simp add: update_page_rows_keys)
qed

lemma runCrawl_Inr:
  assumes "extractPrimaryDomain (seedUrl_of j) = Some pd"
    and "normalizeUrl (seedUrl_of j) = Some seedN"
    and "runCrawl W rows j = Inr f"
  shows "f = finish_crawl (crawl_loop W pd (initial_state rows j pd (seedUrl_of j) seedN))"
  using assms by (auto simp: runCrawl_def split: if_splits)

lemma finish_crawl_tables:
  "pages_table (finish_crawl s) = pages_table (fold reconcile_page (pagesMap s) s)"
  "pagesMap (finish_crawl s) = pagesMap (fold reconcile_page (pagesMap s) s)"
  by (simp_all add: finish_crawl_def reconcile_def)

lemma in_counts_reconciled:
  assumes "extractPrimaryDomain (seedUrl_of j) = Some pd"
    and "normalizeUrl (seedUrl_of j) = Some seedN"
    and "runCrawl W rows j = Inr f"
    and "row \<in> set (pages_table f)"
    and "crawl_job_id row = job_id j"
    and "normalized_url row \<in> fst ` set (pagesMap f)"
  shows "internal_links_in row =
           count_list (map snd (crawl_edges W pd (initial_state rows j pd (seedUrl_of j) seedN)))
             (normalized_url row)
         \<and> external_links_in row = 0"
proof -
  let ?init = "initial_state rows j pd (seedUrl_of j) seedN"
  let ?L = "crawl_loop W pd ?init"
  have f: "f = finish_crawl ?L" using assms(1-3) by (rule runCrawl_Inr)
  have jid: "job_id (job ?L) = job_id j"
    using crawl_loop_incoming [of W pd ?init] by (simp add: initial_state_fields)
  have "\<forall>r \<in> set (pages_table (fold reconcile_page (pagesMap ?L) ?L)).
          row_reconciled (job_id (job ?L)) (incomingLinksMap ?L) ({} \<union> fst ` set (pagesMap ?L)) r"
    by (rule fold_reconcile_page) (simp add: row_reconciled_def)
  then have rr: "row_reconciled (job_id j) (incomingLinksMap ?L) (fst ` set (pagesMap ?L)) row"
    using assms(4) by (simp add: f finish_crawl_tables jid)
  have keys: "normalized_url row \<in> fst ` set (pagesMap ?L)"
    using assms(6) by (simp add: f finish_crawl_tables reconcile_keys)
  have "incoming_get (incomingLinksMap ?L) (normalized_url row) =
          (count_list (map snd (crawl_edges W pd ?init)) (normalized_url row), 0)"
    using crawl_loop_incoming [of W pd ?init "normalized_url row"]
    by (simp add: initial_state_fields incoming_get_def)
  then show ?thesis
    using rr keys assms(5) by (simp add: row_reconciled_def)
qed

text \<open>
  C2 (as the code has it). In a crawl that found no stored row of its job when it
  started, after the reconciliation pass every stored row of the job has as internal
  in-count the number of internal links pointing at it that the crawl classified on
  other pages, one per anchor (two anchors of one page to the same target count twice,
  links of a page to itself are not counted), whenever the linking page was crawled,
  before or after the target; its external in-count is 0.
\<close>

theorem in_counts_after_reconciliation:
  assumes "filter (\<lambda>r. crawl_job_id r = job_id j) rows = []"
    and "extractPrimaryDomain (seedUrl_of j) = Some pd"
    and "normalizeUrl (seedUrl_of j) = Some seedN"
    and "runCrawl W rows j = Inr f"
    and "row \<in> set (pages_table f)"
    and "crawl_job_id row = job_id j"
  shows "internal_links_in row =
           count_list (map snd (crawl_edges W pd (initial_state rows j pd (seedUrl_of j) seedN)))
             (normalized_url row)
         \<and> external_links_in row = 0"
proof -
  let ?init = "initial_state rows j pd (seedUrl_of j) seedN"
  let ?L = "crawl_loop W pd ?init"
  have f: "f = finish_crawl ?L" using assms(2-4) by (rule runCrawl_Inr)
  have jid: "job_id (job ?L) = job_id j"
    using crawl_loop_incoming [of W pd ?init] by (simp add: initial_state_fields)
  have inv: "rows_in_map ?L"
    by (rule crawl_loop_rows) (rule initial_state_rows [OF assms(1)])
  have "(crawl_job_id row, normalized_url row)
          \<in> set (map (\<lambda>r. (crawl_job_id r, normalized_url r)) (pages_table f))"
    using assms(5) by auto
  then have "(crawl_job_id row, normalized_url row)
          \<in> set (map (\<lambda>r. (crawl_job_id r, normalized_url r)) (pages_table ?L))"
    by (simp only: f finish_crawl_tables fold_reconcile_page_keys)
  then obtain r where r: "r \<in> set (pages_table ?L)" "crawl_job_id r = crawl_job_id row"
      "normalized_url r = normalized_url row"
    by auto
  then have "normalized_url row \<in> fst ` set (pagesMap ?L)"
    using inv assms(6) jid unfolding rows_in_map_def by metis
  then have key: "normalized_url row \<in> fst ` set (pagesMap f)"
    by (simp add: f finish_crawl_tables reconcile_keys)
  show ?thesis
    by (rule in_counts_reconciled [OF assms(2-6) key])
qed

lemma demo_seed: "seedUrl_of demo_job = ''https://example.com''"
  by (simp add: seedUrl_of_def demo_job_def startsWith_def)

lemma demo_runCrawl: "runCrawl demo_world [] demo_job = Inr demo_final"
  by (simp add: runCrawl_def demo_seed demo_urls demo_final_def demo_start_def)

lemma demo_final_rows:
  "map (\<lambda>r. (crawl_job_id r, normalized_url r, internal_links_in r, external_links_in r))
       (pages_table demo_final)
     = [(''job-1'', ''https://example.com/'', 1, 0), (''job-1'', ''https://example.com/about'', 2, 0)]
   \<and> map fst (pagesMap demo_final) = [''https://example.com/'', ''https://example.com/about'']"
  by (simp add: demo_final_def crawl_loop.simps demo_defs demo_urls crawl_defs)

lemma demo_edges:
  "crawl_edges demo_world ''example.com'' demo_start
     = [(''https://example.com/'', ''https://example.com/about''),
        (''https://example.com/'', ''https://example.com/about''),
        (''https://example.com/about'', ''https://example.com/'')]"
  by (simp add: crawl_edges.simps demo_defs demo_urls crawl_defs visit_edges_def
        link_target_def page_targets_def)

text \<open>
  C2 as stated fails on the small site: the home page has two anchors to the about
  page, that is one distinct edge, and the about page's stored internal in-count is 2.
\<close>

theorem in_counts_counterexample:
  "runCrawl demo_world [] demo_job = Inr demo_final
   \<and> map (\<lambda>r. (crawl_job_id r, normalized_url r, internal_links_in r, external_links_in r))
         (pages_table demo_final)
       = [(''job-1'', ''https://example.com/'', 1, 0), (''job-1'', ''https://example.com/about'', 2, 0)]
   \<and> remdups (filter (\<lambda>e. snd e = ''https://example.com/about'')
                (crawl_edges demo_world ''example.com'' demo_start))
       = [(''https://example.com/'', ''https://example.com/about'')]"
  by (simp add: demo_runCrawl demo_final_rows demo_edges)

lemma demo_loop_rows:
  "map (\<lambda>r. (normalized_url r, internal_links_in r))
       (pages_table (crawl_loop demo_world ''example.com'' demo_start))
     = [(''https://example.com/'', 0), (''https://example.com/about'', 2)]"
  by (simp add: crawl_loop.simps demo_defs demo_urls crawl_defs)

lemma demo_final_row:
  "length (pages_table demo_final) = 2
   \<and> crawl_job_id (pages_table demo_final ! 0) = ''job-1''
   \<and> normalized_url (pages_table demo_final ! 0) = ''https://example.com/''"
  by (simp add: demo_final_def crawl_loop.simps demo_defs demo_urls crawl_defs)

text \<open>
  On the small site the home page is crawled first and its row is stored with in-count
  0; the about page, crawled after it, links back, and the pass after the loop brings
  the stored row to 1.
\<close>

theorem in_counts_after_reconciliation_witness:
  "runCrawl demo_world [] demo_job = Inr demo_final
   \<and> map (\<lambda>r. (normalized_url r, internal_links_in r))
         (pages_table (crawl_loop demo_world ''example.com'' demo_start))
       = [(''https://example.com/'', 0), (''https://example.com/about'', 2)]
   \<and> normalized_url (pages_table demo_final ! 0) = ''https://example.com/''
   \<and> internal_links_in (pages_table demo_final ! 0)
       = count_list (map snd (crawl_edges demo_world ''example.com'' demo_start))
           ''https://example.com/''
   \<and> count_list (map snd (crawl_edges demo_world ''example.com'' demo_start))
        ''https://example.com/'' = 1
   \<and> external_links_in (pages_table demo_final ! 0) = 0"
proof -
  have fresh: "filter (\<lambda>r. crawl_job_id r = job_id demo_job) [] = []" by simp
  have mem: "pages_table demo_final ! 0 \<in> set (pages_table demo_final)"
    using demo_final_row by simp
  have jid: "crawl_job_id (pages_table demo_final ! 0) = job_id demo_job"
    using demo_final_row by (simp add: demo_job_def)
  have pd: "extractPrimaryDomain (seedUrl_of demo_job) = Some ''example.com''"
    and sn: "normalizeUrl (seedUrl_of demo_job) = Some ''https://example.com/''"
    by (simp_all add: demo_seed demo_urls)
  show ?thesis
    using in_counts_after_reconciliation [OF fresh pd sn demo_runCrawl mem jid]
      demo_final_row demo_runCrawl demo_loop_rows
    by (simp add: demo_seed demo_start_def [symmetric] demo_edges)
qed

section \<open>Domain scope (C4)\<close>

lemma isPrimaryDomain_iff:
  "isPrimaryDomain url pd \<longleftrightarrow>
     (\<exists>u. new_URL url = Some u \<and> strip_www (toLowerCase (hostname u)) = pd)"
  by (auto simp: isPrimaryDomain_def extractPrimaryDomain_def split: option.splits)

lemma classify_external:
  "snd (normalizeAndClassifyUrl l b pd) =
     (case fst (normalizeAndClassifyUrl l b pd) of
        None \<Rightarrow> True | Some n \<Rightarrow> \<not> isPrimaryDomain n pd)"
  by (auto simp: normalizeAndClassifyUrl_def isPrimaryDomain_def split: option.splits)

lemma classify_resolved:
  "new_URL_base l b = Some p \<Longrightarrow> normalizeUrl (href p) = Some n
   \<Longrightarrow> normalizeAndClassifyUrl l b pd = (Some n, \<not> isPrimaryDomain n pd)"
  by (simp add: normalizeAndClassifyUrl_def isPrimaryDomain_def)

lemma visit_in_scope:
  "depth e \<le> MAX_DEPTH \<Longrightarrow> normalized_url e \<notin> fst ` set (pagesMap s)
   \<Longrightarrow> shouldSkipUrl (absoluteUrl_of e s) = None
   \<Longrightarrow> (pagesCrawled (fst (visit W pd e s)) = pagesCrawled s + 1
        \<longleftrightarrow> isPrimaryDomain (normalized_url e) pd)"
  by (simp add: visit_def crawl_page_pagesCrawled)

lemma track_link_scope:
  "shouldSkipUrl l = None \<Longrightarrow> new_URL_base l b = Some p \<Longrightarrow> normalizeUrl (href p) = Some n
   \<Longrightarrow> snd (track_link pd b nu l (s, i, x))
        = (if isPrimaryDomain n pd then (i + 1, x) else (i, x + 1))"
  by (simp add: track_link_def resolveUrl_def classify_resolved)

lemma enqueue_link_scope:
  "shouldSkipUrl l = None \<Longrightarrow> new_URL_base l b = Some p \<Longrightarrow> normalizeUrl (href p) = Some n
   \<Longrightarrow> n \<notin> set (seenUrls s) \<Longrightarrow> n \<notin> fst ` set (pagesMap s) \<Longrightarrow> d < MAX_DEPTH
   \<Longrightarrow> queue (fst (enqueue_link pd b d l (s, a, c, k)))
        = (if isPrimaryDomain n pd
           then queue s @ [\<lparr>normalized_url = n, original_url = href p, depth = d + 1\<rparr>]
           else queue s)"
  by (simp add: enqueue_link_def resolveUrl_def classify_resolved)

text \<open>Links of the small site and other references, resolved against a page.\<close>

lemma demo_links:
  "new_URL_base ''https://blog.example.com/post'' ''https://example.com/''
     = Some \<lparr>protocol = ''https:'', hostname = ''blog.example.com'', port = [],
             pathname = ''/post'', search = [], hash = []\<rparr>"
  "new_URL_base ''team/'' ''https://example.com/about''
     = Some \<lparr>protocol = ''https:'', hostname = ''example.com'', port = [],
             pathname = ''/team/'', search = [], hash = []\<rparr>"
  "new_URL_base ''../a/./b?x=1#top'' ''https://example.com/one/two/three''
     = Some \<lparr>protocol = ''https:'', hostname = ''example.com'', port = [],
             pathname = ''/one/a/b'', search = ''?x=1'', hash = ''#top''\<rparr>"
  "new_URL_base ''//www.example.com/x'' ''http://example.com/about''
     = Some \<lparr>protocol = ''http:'', hostname = ''www.example.com'', port = [],
             pathname = ''/x'', search = [], hash = []\<rparr>"
  "new_URL_base ''?q=1'' ''http://example.com/about?z=2#f''
     = Some \<lparr>protocol = ''http:'', hostname = ''example.com'', port = [],
             pathname = ''/about'', search = ''?q=1'', hash = []\<rparr>"
  "new_URL_base '''' ''http://example.com/about?z=2#f''
     = Some \<lparr>protocol = ''http:'', hostname = ''example.com'', port = [],
             pathname = ''/about'', search = ''?z=2'', hash = []\<rparr>"
  "new_URL_base ''..'' ''http://example.com/a/b/c''
     = Some \<lparr>protocol = ''http:'', hostname = ''example.com'', port = [],
             pathname = ''/a/'', search = [], hash = []\<rparr>"
  "new_URL_base ''https://example.com/about'' ''not a url'' = None"
  "new_URL_base ''mailto:someone@example.com'' ''https://example.com/'' = None"
  "normalizeUrl ''https://blog.example.com/post'' = Some ''https://blog.example.com/post''"
  "normalizeUrl ''https://example.com/team/'' = Some ''https://example.com/team''"
  "shouldSkipUrl ''https://blog.example.com/post'' = None"
  "shouldSkipUrl ''team/'' = None"
  by (simp_all add: str_defs url_defs norm_defs skip_defs)

text \<open>
  C4. \<open>isPrimaryDomain\<close> holds exactly when the URL parses and its lower-cased host
  without a leading \<open>www.\<close> equals the primary domain. The same test decides the
  three call sites.
  \<^item> Seed validation: the seed is rejected exactly when its normalized URL is empty or
    fails the test.
  \<^item> Frontier dequeue: an entry that fails the test is dropped with the state untouched;
    an entry within the depth limit, not yet crawled and not skipped for its form is
    crawled exactly when it passes the test.
  \<^item> Link classification: a link that resolves against the page and normalizes to \<open>n\<close>
    is classified external exactly when \<open>n\<close> fails the test; it is counted as an
    internal or an external link of the page accordingly; and, unseen and within the
    depth limit, it is appended to the queue exactly when \<open>n\<close> passes the test.
  Subdomains do not pass, as the small site shows.
\<close>

theorem exact_domain_scope:
  "(isPrimaryDomain url pd \<longleftrightarrow>
      (\<exists>u. new_URL url = Some u \<and> strip_www (toLowerCase (hostname u)) = pd))
   \<and> (isl (runCrawl_seed W rows j seedUrl pd (Some seedN))
        \<longleftrightarrow> seedN = [] \<or> \<not> isPrimaryDomain seedN pd)
   \<and> (\<not> isPrimaryDomain (normalized_url e) pd \<longrightarrow> visit W pd e s = (s, False))
   \<and> (depth e \<le> MAX_DEPTH \<and> normalized_url e \<notin> fst ` set (pagesMap s)
          \<and> shouldSkipUrl (absoluteUrl_of e s) = None
        \<longrightarrow> (pagesCrawled (fst (visit W pd e s)) = pagesCrawled s + 1
              \<longleftrightarrow> isPrimaryDomain (normalized_url e) pd))
   \<and> snd (normalizeAndClassifyUrl l b pd) =
       (case fst (normalizeAndClassifyUrl l b pd) of
          None \<Rightarrow> True | Some n \<Rightarrow> \<not> isPrimaryDomain n pd)
   \<and> (new_URL_base l b = Some p \<and> normalizeUrl (href p) = Some n
        \<longrightarrow> normalizeAndClassifyUrl l b pd = (Some n, \<not> isPrimaryDomain n pd))
   \<and> (shouldSkipUrl l = None \<and> new_URL_base l b = Some p \<and> normalizeUrl (href p) = Some n
        \<longrightarrow> snd (track_link pd b nu l (s, i, x))
              = (if isPrimaryDomain n pd then (i + 1, x) else (i, x + 1)))
   \<and> (queue (fst (enqueue_classified pd d r (Some n, ext) (s, a, c, k))) \<noteq> queue s
        \<longrightarrow> isPrimaryDomain n pd \<and> \<not> ext)
   \<and> (shouldSkipUrl l = None \<and> new_URL_base l b = Some p \<and> normalizeUrl (href p) = Some n
          \<and> n \<notin> set (seenUrls s) \<and> n \<notin> fst ` set (pagesMap s) \<and> d < MAX_DEPTH
        \<longrightarrow> queue (fst (enqueue_link pd b d l (s, a, c, k)))
              = (if isPrimaryDomain n pd
                 then queue s @ [\<lparr>normalized_url = n, original_url = href p, depth = d + 1\<rparr>]
                 else queue s))"
proof (intro conjI)
  show "isPrimaryDomain url pd \<longleftrightarrow>
      (\<exists>u. new_URL url = Some u \<and> strip_www (toLowerCase (hostname u)) = pd)"
    by (rule isPrimaryDomain_iff)
  show "isl (runCrawl_seed W rows j seedUrl pd (Some seedN))
        \<longleftrightarrow> seedN = [] \<or> \<not> isPrimaryDomain seedN pd"
    by simp
  show "\<not> isPrimaryDomain (normalized_url e) pd \<longrightarrow> visit W pd e s = (s, False)"
    by (simp add: visit_def)
  show "depth e \<le> MAX_DEPTH \<and> normalized_url e \<notin> fst ` set (pagesMap s)
          \<and> shouldSkipUrl (absoluteUrl_of e s) = None
        \<longrightarrow> (pagesCrawled (fst (visit W pd e s)) = pagesCrawled s + 1
              \<longleftrightarrow> isPrimaryDomain (normalized_url e) pd)"
    using visit_in_scope [of e s W pd] by blast
  show "snd (normalizeAndClassifyUrl l b pd) =
       (case fst (normalizeAndClassifyUrl l b pd) of
          None \<Rightarrow> True | Some n \<Rightarrow> \<not> isPrimaryDomain n pd)"
    by (rule classify_external)
  show "new_URL_base l b = Some p \<and> normalizeUrl (href p) = Some n
        \<longrightarrow> normalizeAndClassifyUrl l b pd = (Some n, \<not> isPrimaryDomain n pd)"
    using classify_resolved [of l b p n pd] by blast
  show "shouldSkipUrl l = None \<and> new_URL_base l b = Some p \<and> normalizeUrl (href p) = Some n
        \<longrightarrow> snd (track_link pd b nu l (s, i, x))
              = (if isPrimaryDomain n pd then (i + 1, x) else (i, x + 1))"
    using track_link_scope [of l b p n pd nu s i x] by blast
  show "queue (fst (enqueue_classified pd d r (Some n, ext) (s, a, c, k))) \<noteq> queue s
        \<longrightarrow> isPrimaryDomain n pd \<and> \<not> ext"
    by simp
  show "shouldSkipUrl l = None \<and> new_URL_base l b = Some p \<and> normalizeUrl (href p) = Some n
          \<and> n \<notin> set (seenUrls s) \<and> n \<notin> fst ` set (pagesMap s) \<and> d < MAX_DEPTH
        \<longrightarrow> queue (fst (enqueue_link pd b d l (s, a, c, k)))
              = (if isPrimaryDomain n pd
                 then queue s @ [\<lparr>normalized_url = n, original_url = href p, depth = d + 1\<rparr>]
                 else queue s)"
    using enqueue_link_scope [of l b p n s d pd a c k] by blast
qed

lemma demo_scope:
  "\<not> isPrimaryDomain ''https://blog.example.com/'' ''example.com''"
  "isPrimaryDomain ''https://WWW.Example.com/pricing'' ''example.com''"
  "\<not> isPrimaryDomain ''https://example.com.evil.org/'' ''example.com''"
  "\<not> isPrimaryDomain ''https://blog.example.com/post'' ''example.com''"
  "isPrimaryDomain ''https://example.com/team'' ''example.com''"
  by (simp_all add: str_defs url_defs norm_defs)

lemma demo_start_fields:
  "queue demo_start = [\<lparr>normalized_url = ''https://example.com/'',
                         original_url = ''https://example.com'', depth = 0\<rparr>]"
  "seenUrls demo_start = [''https://example.com/'']"
  "pagesMap demo_start = []"
  "pagesCrawled demo_start = 0"
  by (simp_all add: demo_start_def initial_state_def fresh_state_def mark_seed_def set_add_def)


theorem exact_domain_scope_witness:
  "\<not> isPrimaryDomain (normalized_url demo_blog_entry) ''example.com''
   \<and> visit demo_world ''example.com'' demo_blog_entry demo_start = (demo_start, False)
   \<and> isPrimaryDomain ''https://WWW.Example.com/pricing'' ''example.com''
   \<and> \<not> isPrimaryDomain ''https://example.com.evil.org/'' ''example.com''
   \<and> \<not> isl (runCrawl_seed demo_world [] demo_job ''https://example.com'' ''example.com''
               (Some ''https://example.com/''))
   \<and> pagesCrawled (fst (visit demo_world ''example.com'' (hd (queue demo_start))
                         (demo_start\<lparr>queue := []\<rparr>))) = 1
   \<and> normalizeAndClassifyUrl ''https://blog.example.com/post'' ''https://example.com/'' ''example.com''
       = (Some ''https://blog.example.com/post'', True)
   \<and> normalizeAndClassifyUrl ''team/'' ''https://example.com/about'' ''example.com''
       = (Some ''https://example.com/team'', False)
   \<and> snd (track_link ''example.com'' ''https://example.com/'' ''https://example.com/''
            ''https://blog.example.com/post'' (demo_start, 0, 0)) = (0, 1)
   \<and> snd (track_link ''example.com'' ''https://example.com/about'' ''https://example.com/about''
            ''team/'' (demo_start, 0, 0)) = (1, 0)
   \<and> queue (fst (enqueue_link ''example.com'' ''https://example.com/'' 0
                   ''https://blog.example.com/post'' (demo_start, 0, 0, 0)))
       = queue demo_start
   \<and> queue (fst (enqueue_link ''example.com'' ''https://example.com/about'' 1 ''team/''
                   (demo_start, 0, 0, 0)))
       = queue demo_start @ [\<lparr>normalized_url = ''https://example.com/team'',
                                original_url = ''https://example.com/team/'', depth = 2\<rparr>]"
proof -
  let ?pd = "''example.com''"
  let ?seed = "hd (queue demo_start)"
  let ?blog = "\<lparr>protocol = ''https:'', hostname = ''blog.example.com'', port = [],
                pathname = ''/post'', search = [], hash = []\<rparr>"
  let ?team = "\<lparr>protocol = ''https:'', hostname = ''example.com'', port = [],
                pathname = ''/team/'', search = [], hash = []\<rparr>"
  note seed_site = exact_domain_scope [THEN conjunct2, THEN conjunct1]
  note dequeue_out = exact_domain_scope [THEN conjunct2, THEN conjunct2, THEN conjunct1, rule_format]
  note dequeue_in = exact_domain_scope
    [THEN conjunct2, THEN conjunct2, THEN conjunct2, THEN conjunct1, rule_format]
  note classify = exact_domain_scope
    [THEN conjunct2, THEN conjunct2, THEN conjunct2, THEN conjunct2, THEN conjunct2,
     THEN conjunct1, rule_format]
  note track = exact_domain_scope
    [THEN conjunct2, THEN conjunct2, THEN conjunct2, THEN conjunct2, THEN conjunct2,
     THEN conjunct2, THEN conjunct1, rule_format]
  note enqueue = exact_domain_scope
    [THEN conjunct2, THEN conjunct2, THEN conjunct2, THEN conjunct2, THEN conjunct2,
     THEN conjunct2, THEN conjunct2, THEN conjunct2, rule_format]
  have blog: "new_URL_base ''https://blog.example.com/post'' ''https://example.com/'' = Some ?blog"
      "normalizeUrl (href ?blog) = Some ''https://blog.example.com/post''"
      "shouldSkipUrl ''https://blog.example.com/post'' = None"
    and team: "new_URL_base ''team/'' ''https://example.com/about'' = Some ?team"
      "normalizeUrl (href ?team) = Some ''https://example.com/team''"
      "shouldSkipUrl ''team/'' = None"
    by (simp_all add: demo_links href_def)
  have 1: "\<not> isPrimaryDomain (normalized_url demo_blog_entry) ?pd"
    by (simp add: demo_blog_entry_def demo_scope)
  have 2: "visit demo_world ?pd demo_blog_entry demo_start = (demo_start, False)"
    by (rule dequeue_out [OF 1])
  have 3: "\<not> isl (runCrawl_seed demo_world [] demo_job ''https://example.com'' ?pd
                   (Some ''https://example.com/''))"
    by (simp only: seed_site) (simp add: demo_urls)
  have "depth ?seed \<le> MAX_DEPTH \<and> normalized_url ?seed \<notin> fst ` set (pagesMap (demo_start\<lparr>queue := []\<rparr>))
          \<and> shouldSkipUrl (absoluteUrl_of ?seed (demo_start\<lparr>queue := []\<rparr>)) = None"
    by (simp add: demo_start_fields MAX_DEPTH_def absoluteUrl_of_def demo_urls)
  from dequeue_in [OF this, of demo_world ?pd]
  have 4: "pagesCrawled (fst (visit demo_world ?pd ?seed (demo_start\<lparr>queue := []\<rparr>))) = 1"
    by (simp add: demo_start_fields demo_urls)
  have 5: "normalizeAndClassifyUrl ''https://blog.example.com/post'' ''https://example.com/'' ?pd
             = (Some ''https://blog.example.com/post'', True)"
    using classify [OF conjI [OF blog(1) blog(2)], of ?pd] by (simp add: demo_scope)
  have 6: "normalizeAndClassifyUrl ''team/'' ''https://example.com/about'' ?pd
             = (Some ''https://example.com/team'', False)"
    using classify [OF conjI [OF team(1) team(2)], of ?pd] by (simp add: demo_scope)
  have 7: "snd (track_link ?pd ''https://example.com/'' ''https://example.com/''
                 ''https://blog.example.com/post'' (demo_start, 0, 0)) = (0, 1)"
    using track [OF conjI [OF blog(3) conjI [OF blog(1) blog(2)]],
                 of ?pd "''https://example.com/''" demo_start 0 0]
    by (simp add: demo_scope)
  have 8: "snd (track_link ?pd ''https://example.com/about'' ''https://example.com/about''
                 ''team/'' (demo_start, 0, 0)) = (1, 0)"
    using track [OF conjI [OF team(3) conjI [OF team(1) team(2)]],
                 of ?pd "''https://example.com/about''" demo_start 0 0]
    by (simp add: demo_scope)
  have "shouldSkipUrl ''https://blog.example.com/post'' = None
        \<and> new_URL_base ''https://blog.example.com/post'' ''https://example.com/'' = Some ?blog
        \<and> normalizeUrl (href ?blog) = Some ''https://blog.example.com/post''
        \<and> ''https://blog.example.com/post'' \<notin> set (seenUrls demo_start)
        \<and> ''https://blog.example.com/post'' \<notin> fst ` set (pagesMap demo_start)
        \<and> (0 :: nat) < MAX_DEPTH"
    using blog by (simp add: demo_start_fields MAX_DEPTH_def)
  from enqueue [OF this, of ?pd 0 0 0]
  have 9: "queue (fst (enqueue_link ?pd ''https://example.com/'' 0
                         ''https://blog.example.com/post'' (demo_start, 0, 0, 0)))
             = queue demo_start"
    by (simp add: demo_scope)
  have "shouldSkipUrl ''team/'' = None
        \<and> new_URL_base ''team/'' ''https://example.com/about'' = Some ?team
        \<and> normalizeUrl (href ?team) = Some ''https://example.com/team''
        \<and> ''https://example.com/team'' \<notin> set (seenUrls demo_start)
        \<and> ''https://example.com/team'' \<notin> fst ` set (pagesMap demo_start)
        \<and> (1 :: nat) < MAX_DEPTH"
    using team by (simp add: demo_start_fields MAX_DEPTH_def)
  from enqueue [OF this, of ?pd 0 0 0]
  have 10: "queue (fst (enqueue_link ?pd ''https://example.com/about'' 1 ''team/''
                          (demo_start, 0, 0, 0)))
              = queue demo_start @ [\<lparr>normalized_url = ''https://example.com/team'',
                                       original_url = ''https://example.com/team/'', depth = 2\<rparr>]"
    by (simp add: demo_scope href_def)
  show ?thesis
    using 1 2 3 4 5 6 7 8 9 10 demo_scope(2,3) by blast
qed

lemmas extraction_defs = startContentExtraction_def lookup_crawl_job_def BATCH_SIZE_def page_url_def process_page_def
  updateExtractionJobStatus_def report_progress_def process_batch_def count_or_null_def
  list_or_null_def mark_completed_def start_state_def extract_selected_def existing_urls_def
  select_missing_def runContentExtraction_def

lemmas demo_extraction_defs = demo_row_home_def demo_row_about_def demo_content_def
  demo_extraction_world_def demo_extraction_job_def demo_full_table_def

section \<open>Starting an extraction (C9)\<close>

lemma filter_distinct_key:
  assumes "distinct (map f xs)"
  shows "(a \<notin> f ` set xs \<and> filter (\<lambda>x. f x = a) xs = [])
         \<or> (\<exists>x. x \<in> set xs \<and> f x = a \<and> filter (\<lambda>x. f x = a) xs = [x])"
  using assms
proof (induction xs)
  case Nil
  then show ?case by simp
next
  case (Cons y ys)
  show ?case
  proof (cases "f y = a")
    case True
    then have "a \<notin> f ` set ys" using Cons.prems by auto
    then have "filter (\<lambda>x. f x = a) ys = []" by (auto simp: filter_empty_conv)
    then show ?thesis using True by auto
  next
    case False
    then show ?thesis using Cons by auto
  qed
qed

text \<open>
  C9 (as the code has it). With the ids of the stored crawl jobs pairwise different,
  \<open>startContentExtraction\<close> throws exactly when the store answers the lookup of the
  crawl job with an error, or no crawl job has the given id, or the insert of the job
  record fails; in the first two cases the message is that the crawl job was not
  found. Otherwise it returns the new job with status \<open>running\<close>. The crawl job's own
  status is never read.
\<close>

theorem startContentExtraction_throws_iff:
  assumes "distinct (map job_id (crawl_jobs W))"
  shows "(isl (startContentExtraction W sitemapId options)
            \<longleftrightarrow> lookup_error W sitemapId \<noteq> None \<or> sitemapId \<notin> job_id ` set (crawl_jobs W)
                \<or> insert_job_error W \<noteq> None)
         \<and> (lookup_error W sitemapId \<noteq> None \<or> sitemapId \<notin> job_id ` set (crawl_jobs W)
              \<longrightarrow> startContentExtraction W sitemapId options
                    = Inl (''Crawl job '' @ sitemapId @ '' not found''))
         \<and> (lookup_error W sitemapId = None \<and> sitemapId \<in> job_id ` set (crawl_jobs W)
              \<and> insert_job_error W = None
              \<longrightarrow> startContentExtraction W sitemapId options =
                    Inr \<lparr>ex_id = new_job_id W, ex_crawl_job_id = sitemapId, ex_status = Running,
                         only_missing = (case options of None \<Rightarrow> True | Some b \<Rightarrow> b),
                         pages_total = None, pages_extracted = None, pages_failed = None,
                         pages_skipped = None, pages_in_database = None, failed_urls = None,
                         ex_error_message = None\<rparr>)"
proof (cases "lookup_error W sitemapId")
  case (Some msg)
  then show ?thesis by (simp add: startContentExtraction_def lookup_crawl_job_def)
next
  case None
  from filter_distinct_key [OF assms, of sitemapId]
  consider (none) "sitemapId \<notin> job_id ` set (crawl_jobs W)"
      "filter (\<lambda>j. job_id j = sitemapId) (crawl_jobs W) = []"
    | (one) x where "x \<in> set (crawl_jobs W)" "job_id x = sitemapId"
      "filter (\<lambda>j. job_id j = sitemapId) (crawl_jobs W) = [x]"
    by blast
  then show ?thesis
  proof cases
    case none
    then show ?thesis using None by (simp add: startContentExtraction_def lookup_crawl_job_def)
  next
    case one
    then have "sitemapId \<in> job_id ` set (crawl_jobs W)" by auto
    then show ?thesis using one(3) None
      by (cases "insert_job_error W") (simp_all add: startContentExtraction_def lookup_crawl_job_def)
  qed
qed

theorem startContentExtraction_throws_iff_witness:
  "distinct (map job_id (crawl_jobs demo_extraction_world))
   \<and> map status (crawl_jobs demo_extraction_world) = [Failed]
   \<and> startContentExtraction demo_extraction_world ''job-1'' None
       = Inr (demo_extraction_job True)
   \<and> startContentExtraction demo_extraction_world ''job-2'' None
       = Inl ''Crawl job job-2 not found''"
proof -
  have d: "distinct (map job_id (crawl_jobs demo_extraction_world))"
    by (simp add: demo_extraction_world_def)
  show ?thesis
    using startContentExtraction_throws_iff [OF d, of "''job-1''" None]
      startContentExtraction_throws_iff [OF d, of "''job-2''" None]
    by (simp add: demo_extraction_world_def demo_job_def demo_extraction_job_def)
qed

text \<open>
  C9 as stated fails while the store does not answer: the crawl job \<open>job-1\<close> exists and
  the insert of the job record would succeed, yet \<open>startContentExtraction\<close> throws.
\<close>

theorem startContentExtraction_counterexample:
  "map job_id (crawl_jobs demo_unreachable_world) = [''job-1'']
   \<and> insert_job_error demo_unreachable_world = None
   \<and> startContentExtraction demo_unreachable_world ''job-1'' None
       = Inl ''Crawl job job-1 not found''"
  by (simp add: demo_unreachable_world_def demo_extraction_world_def demo_job_def
        startContentExtraction_def lookup_crawl_job_def)

section \<open>Persistence with fallback (C5)\<close>

lemma process_page_job: "ex_job (process_page W sid page s) = ex_job s"
proof (cases "extractPageContent W (page_url page)")
  case (Inl msg)
  then show ?thesis by (simp add: process_page_def)
next
  case (Inr content)
  obtain t e where p: "persist_content W (upsert_error W (storage_url (normalizeUrl (page_url page)) page))
          sid (storage_url (normalizeUrl (page_url page)) page) content (page_content s) = (t, e)"
    by (cases "persist_content W (upsert_error W (storage_url (normalizeUrl (page_url page)) page))
          sid (storage_url (normalizeUrl (page_url page)) page) content (page_content s)")
  show ?thesis using Inr p by (cases e) (simp_all add: process_page_def)
qed

lemma process_page_counts:
  "pagesExtracted (process_page W sid page s) + pagesFailed (process_page W sid page s)
     = pagesExtracted s + pagesFailed s + 1
   \<and> length (failedUrls (process_page W sid page s)) + pagesFailed s
       = length (failedUrls s) + pagesFailed (process_page W sid page s)"
proof (cases "extractPageContent W (page_url page)")
  case (Inl msg)
  then show ?thesis by (simp add: process_page_def)
next
  case (Inr content)
  obtain t e where p: "persist_content W (upsert_error W (storage_url (normalizeUrl (page_url page)) page))
          sid (storage_url (normalizeUrl (page_url page)) page) content (page_content s) = (t, e)"
    by (cases "persist_content W (upsert_error W (storage_url (normalizeUrl (page_url page)) page))
          sid (storage_url (normalizeUrl (page_url page)) page) content (page_content s)")
  show ?thesis using Inr p by (cases e) (simp_all add: process_page_def)
qed

lemma fold_process_page:
  "pagesExtracted (fold (process_page W sid) pages s) + pagesFailed (fold (process_page W sid) pages s)
     = pagesExtracted s + pagesFailed s + length pages
   \<and> length (failedUrls (fold (process_page W sid) pages s)) + pagesFailed s
       = length (failedUrls s) + pagesFailed (fold (process_page W sid) pages s)
   \<and> ex_job (fold (process_page W sid) pages s) = ex_job s"
proof (induction pages arbitrary: s)
  case Nil
  then show ?case by simp
next
  case (Cons p ps)
  show ?case
    using Cons.IH [of "process_page W sid p s"] process_page_counts [of W sid p s]
    by (simp add: process_page_job)
qed

lemma process_batch_counts:
  "pagesExtracted (process_batch W sid n b s) + pagesFailed (process_batch W sid n b s)
     = pagesExtracted s + pagesFailed s + length b
   \<and> length (failedUrls (process_batch W sid n b s)) + pagesFailed s
       = length (failedUrls s) + pagesFailed (process_batch W sid n b s)
   \<and> ex_status (ex_job (process_batch W sid n b s)) = Running"
  using fold_process_page [of W sid b s]
  by (simp add: process_batch_def report_progress_def updateExtractionJobStatus_def)

lemma fold_process_batch:
  "pagesExtracted (fold (process_batch W sid n) bs s) + pagesFailed (fold (process_batch W sid n) bs s)
     = pagesExtracted s + pagesFailed s + length (concat bs)
   \<and> length (failedUrls (fold (process_batch W sid n) bs s)) + pagesFailed s
       = length (failedUrls s) + pagesFailed (fold (process_batch W sid n) bs s)"
proof (induction bs arbitrary: s)
  case Nil
  then show ?case by simp
next
  case (Cons b bs)
  show ?case
    using Cons.IH [of "process_batch W sid n b s"] process_batch_counts [of W sid n b s]
    by simp
qed

lemma concat_batches_of: "0 < n \<Longrightarrow> concat (batches_of n xs) = xs"
proof (induction n xs rule: batches_of.induct)
  case (1 n xs)
  show ?case
  proof (cases "xs = []")
    case True
    then show ?thesis by (subst batches_of.simps) simp
  next
    case False
    then show ?thesis using 1 by (subst batches_of.simps) simp
  qed
qed

lemma extract_selected_counts:
  assumes "pages \<noteq> []"
  shows "ex_status (ex_job (extract_selected W table j allPages pages)) = Completed
   \<and> pages_total (ex_job (extract_selected W table j allPages pages)) = Some (length pages)
   \<and> pages_extracted (ex_job (extract_selected W table j allPages pages))
       = Some (pagesExtracted (extract_selected W table j allPages pages))
   \<and> pages_failed (ex_job (extract_selected W table j allPages pages))
       = Some (pagesFailed (extract_selected W table j allPages pages))
   \<and> pagesExtracted (extract_selected W table j allPages pages)
       + pagesFailed (extract_selected W table j allPages pages) = length pages
   \<and> length (failedUrls (extract_selected W table j allPages pages))
       = pagesFailed (extract_selected W table j allPages pages)
   \<and> failed_urls (ex_job (extract_selected W table j allPages pages))
       = (if pagesFailed (extract_selected W table j allPages pages) = 0 then None
          else Some (failedUrls (extract_selected W table j allPages pages)))"
proof -
  define R where "R = fold (process_batch W (ex_crawl_job_id j) (length pages))
                        (batches_of BATCH_SIZE pages) (start_state table j)"
  have c: "pagesExtracted R + pagesFailed R = length pages"
    "length (failedUrls R) = pagesFailed R"
    using fold_process_batch [of W "ex_crawl_job_id j" "length pages"
            "batches_of BATCH_SIZE pages" "start_state table j"]
    by (simp_all add: R_def concat_batches_of BATCH_SIZE_def start_state_def)
  have E: "extract_selected W table j allPages pages
             = mark_completed (length pages) (ex_crawl_job_id j) R"
    using assms by (simp add: extract_selected_def R_def)
  have l: "failedUrls R = [] \<longleftrightarrow> pagesFailed R = 0"
    using c(2) by (metis length_0_conv)
  show ?thesis
    unfolding E using c l
    by (simp add: mark_completed_def updateExtractionJobStatus_def list_or_null_def)
qed

lemma extract_selected_none:
  "ex_status (ex_job (extract_selected W table j allPages [])) = Completed
   \<and> pages_total (ex_job (extract_selected W table j allPages [])) = Some (length allPages)
   \<and> pages_extracted (ex_job (extract_selected W table j allPages [])) = Some 0
   \<and> pages_failed (ex_job (extract_selected W table j allPages [])) = Some 0
   \<and> pages_skipped (ex_job (extract_selected W table j allPages [])) = Some (length allPages)"
  by (simp add: extract_selected_def updateExtractionJobStatus_def)

lemma extraction_completes:
  assumes "select_pages W (ex_crawl_job_id j) = Inr allPages"
  shows "ex_status (ex_job (runContentExtraction W table j)) = Completed"
proof (cases "allPages = []")
  case True
  then show ?thesis using assms
    by (simp add: runContentExtraction_def updateExtractionJobStatus_def)
next
  case False
  show ?thesis
  proof (cases "select_missing W table j allPages = []")
    case True
    then show ?thesis using assms False extract_selected_none [of W table j allPages]
      by (simp add: runContentExtraction_def)
  next
    case False
    then show ?thesis using assms \<open>allPages \<noteq> []\<close>
        extract_selected_counts [OF False, of W table j allPages]
      by (simp add: runContentExtraction_def)
  qed
qed


lemma demo_page_urls:
  "page_url demo_row_home = ''https://example.com/''"
  "page_url demo_row_about = ''https://example.com/about''"
  "normalized_url demo_row_home = ''https://example.com/''"
  "normalized_url demo_row_about = ''https://example.com/about''"
  "normalizeUrl ''https://example.com/'' = Some ''https://example.com/''"
  "normalizeUrl ''https://example.com/about'' = Some ''https://example.com/about''"
  by (simp_all add: page_url_def demo_extraction_defs demo_defs pageRow_def pageObject_def
        Page.extend_def PageRow.fields_def str_defs url_defs norm_defs)

lemma demo_extraction_run:
  "ex_job (runContentExtraction demo_extraction_world [] (demo_extraction_job False))
     = (demo_extraction_job False)
         \<lparr>ex_status := Completed, pages_total := Some 2, pages_extracted := Some 1,
           pages_failed := Some 1, pages_in_database := Some 1,
           failed_urls := Some [(''https://example.com/about'',
              ''Database error (upsert failed, insert also failed): duplicate key. Original: no unique constraint'')]\<rparr>"
  by (simp add: runContentExtraction_def demo_extraction_world_def demo_extraction_job_def
        select_missing_def extract_selected_def batches_of.simps BATCH_SIZE_def process_batch_def
        process_page_def demo_page_urls start_state_def report_progress_def mark_completed_def
        updateExtractionJobStatus_def count_or_null_def list_or_null_def demo_content_def)


section \<open>Extraction counters (C10)\<close>

text \<open>
  C10 (as the code has it). When the pages of the crawl can be loaded the job ends
  completed. If some page is selected for processing, every selected page adds one to
  exactly one of the two counters, so the job holds extracted + failed = total = the
  number of selected pages, and \<open>failed_urls\<close> has one entry per failed page (it is null
  when none failed). If no page is selected, extracted and failed are 0 and the total is
  the number of all pages of the crawl; when there are such pages (all of them already
  have content) that number is also recorded as \<open>pages_skipped\<close>.
\<close>

theorem extraction_counters:
  assumes "select_pages W (ex_crawl_job_id j) = Inr allPages"
  shows "ex_status (ex_job (runContentExtraction W table j)) = Completed
   \<and> (select_missing W table j allPages \<noteq> [] \<longrightarrow>
        pages_total (ex_job (runContentExtraction W table j))
          = Some (length (select_missing W table j allPages))
        \<and> pages_extracted (ex_job (runContentExtraction W table j))
            = Some (pagesExtracted (runContentExtraction W table j))
        \<and> pages_failed (ex_job (runContentExtraction W table j))
            = Some (pagesFailed (runContentExtraction W table j))
        \<and> pagesExtracted (runContentExtraction W table j)
            + pagesFailed (runContentExtraction W table j)
            = length (select_missing W table j allPages)
        \<and> length (failedUrls (runContentExtraction W table j))
            = pagesFailed (runContentExtraction W table j)
        \<and> failed_urls (ex_job (runContentExtraction W table j))
            = (if pagesFailed (runContentExtraction W table j) = 0 then None
               else Some (failedUrls (runContentExtraction W table j))))
   \<and> (select_missing W table j allPages = [] \<longrightarrow>
        pages_total (ex_job (runContentExtraction W table j)) = Some (length allPages)
        \<and> pages_extracted (ex_job (runContentExtraction W table j)) = Some 0
        \<and> pages_failed (ex_job (runContentExtraction W table j)) = Some 0
        \<and> (allPages \<noteq> [] \<longrightarrow>
             pages_skipped (ex_job (runContentExtraction W table j)) = Some (length allPages)))"
proof (intro conjI)
  show "ex_status (ex_job (runContentExtraction W table j)) = Completed"
    using assms by (rule extraction_completes)
  have ne: "allPages \<noteq> []" if "select_missing W table j allPages \<noteq> []"
    using that by (auto simp: select_missing_def split: if_splits)
  show "select_missing W table j allPages \<noteq> [] \<longrightarrow>
        pages_total (ex_job (runContentExtraction W table j))
          = Some (length (select_missing W table j allPages))
        \<and> pages_extracted (ex_job (runContentExtraction W table j))
            = Some (pagesExtracted (runContentExtraction W table j))
        \<and> pages_failed (ex_job (runContentExtraction W table j))
            = Some (pagesFailed (runContentExtraction W table j))
        \<and> pagesExtracted (runContentExtraction W table j)
            + pagesFailed (runContentExtraction W table j)
            = length (select_missing W table j allPages)
        \<and> length (failedUrls (runContentExtraction W table j))
            = pagesFailed (runContentExtraction W table j)
        \<and> failed_urls (ex_job (runContentExtraction W table j))
            = (if pagesFailed (runContentExtraction W table j) = 0 then None
               else Some (failedUrls (runContentExtraction W table j)))"
  proof
    assume sel: "select_missing W table j allPages \<noteq> []"
    have R: "runContentExtraction W table j
               = extract_selected W table j allPages (select_missing W table j allPages)"
      using assms ne [OF sel] by (simp add: runContentExtraction_def)
    show "pages_total (ex_job (runContentExtraction W table j))
          = Some (length (select_missing W table j allPages))
        \<and> pages_extracted (ex_job (runContentExtraction W table j))
            = Some (pagesExtracted (runContentExtraction W table j))
        \<and> pages_failed (ex_job (runContentExtraction W table j))
            = Some (pagesFailed (runContentExtraction W table j))
        \<and> pagesExtracted (runContentExtraction W table j)
            + pagesFailed (runContentExtraction W table j)
            = length (select_missing W table j allPages)
        \<and> length (failedUrls (runContentExtraction W table j))
            = pagesFailed (runContentExtraction W table j)
        \<and> failed_urls (ex_job (runContentExtraction W table j))
            = (if pagesFailed (runContentExtraction W table j) = 0 then None
               else Some (failedUrls (runContentExtraction W table j)))"
      unfolding R using extract_selected_counts [OF sel, of W table j allPages] by blast
  qed
  show "select_missing W table j allPages = [] \<longrightarrow>
        pages_total (ex_job (runContentExtraction W table j)) = Some (length allPages)
        \<and> pages_extracted (ex_job (runContentExtraction W table j)) = Some 0
        \<and> pages_failed (ex_job (runContentExtraction W table j)) = Some 0
        \<and> (allPages \<noteq> [] \<longrightarrow>
             pages_skipped (ex_job (runContentExtraction W table j)) = Some (length allPages))"
  proof (cases "allPages = []")
    case True
    then show ?thesis using assms
      by (simp add: runContentExtraction_def updateExtractionJobStatus_def)
  next
    case False
    then show ?thesis using assms extract_selected_none [of W table j allPages]
      by (auto simp: runContentExtraction_def)
  qed
qed

theorem extraction_counters_witness:
  "select_pages demo_extraction_world (ex_crawl_job_id (demo_extraction_job False))
     = Inr [demo_row_home, demo_row_about]
   \<and> select_missing demo_extraction_world [] (demo_extraction_job False)
       [demo_row_home, demo_row_about] = [demo_row_home, demo_row_about]
   \<and> pages_total (ex_job (runContentExtraction demo_extraction_world [] (demo_extraction_job False)))
       = Some 2
   \<and> pages_extracted (ex_job (runContentExtraction demo_extraction_world [] (demo_extraction_job False)))
       = Some 1
   \<and> pages_failed (ex_job (runContentExtraction demo_extraction_world [] (demo_extraction_job False)))
       = Some 1
   \<and> pagesExtracted (runContentExtraction demo_extraction_world [] (demo_extraction_job False))
       + pagesFailed (runContentExtraction demo_extraction_world [] (demo_extraction_job False)) = 2
   \<and> length (failedUrls (runContentExtraction demo_extraction_world [] (demo_extraction_job False)))
       = 1"
proof -
  have sel: "select_pages demo_extraction_world (ex_crawl_job_id (demo_extraction_job False))
               = Inr [demo_row_home, demo_row_about]"
    by (simp add: demo_extraction_world_def demo_extraction_job_def)
  have mis: "select_missing demo_extraction_world [] (demo_extraction_job False)
       [demo_row_home, demo_row_about] = [demo_row_home, demo_row_about]"
    by (simp add: select_missing_def demo_extraction_job_def)
  show ?thesis
    using extraction_counters [OF sel, of "[]"] demo_extraction_run sel mis
    by simp
qed

text \<open>
  C10 as stated fails when \<open>onlyMissing\<close> is set and every page already has content:
  the job completes with total 2 and both counters 0.
\<close>

theorem extraction_counters_counterexample:
  "ex_status (ex_job (runContentExtraction demo_extraction_world demo_full_table
                        (demo_extraction_job True))) = Completed
   \<and> pages_total (ex_job (runContentExtraction demo_extraction_world demo_full_table
                            (demo_extraction_job True))) = Some 2
   \<and> pages_extracted (ex_job (runContentExtraction demo_extraction_world demo_full_table
                                (demo_extraction_job True))) = Some 0
   \<and> pages_failed (ex_job (runContentExtraction demo_extraction_world demo_full_table
                             (demo_extraction_job True))) = Some 0
   \<and> select_missing demo_extraction_world demo_full_table (demo_extraction_job True)
       [demo_row_home, demo_row_about] = []"
  by (simp add: runContentExtraction_def demo_extraction_world_def demo_extraction_job_def
        select_missing_def existing_urls_def demo_full_table_def extract_selected_def
        demo_page_urls start_state_def updateExtractionJobStatus_def)

end
